theory Spec2Isabelle
  imports Main "HOL-Library.Word"
begin

section \<open>Strings of the program\<close>

text \<open>
  A string of the program is a sequence of 16-bit code units. The regular expressions of
  \<^verbatim>\<open>index.ts\<close> carry no \<^verbatim>\<open>u\<close> flag, so they and \<^verbatim>\<open>trim\<close> work on
  code units, one at a time. \<open>js\<close> writes a literal of the source.
\<close>

type_synonym jsstring = "16 word list"

definition js :: "string \<Rightarrow> jsstring" where
  "js s = map of_char s"

text \<open>
  The class \<^verbatim>\<open>\s\<close> of a regular expression, which is also what \<^verbatim>\<open>trim\<close>
  removes: the white space and line terminator code units of ECMAScript (TAB, LF, VT, FF,
  CR, SP, NBSP, U+1680, U+2000 to U+200A, U+2028, U+2029, U+202F, U+205F, U+3000, U+FEFF).
\<close>

definition is_space :: "16 word \<Rightarrow> bool" where
  "is_space c \<longleftrightarrow>
     c = 0x09 \<or> c = 0x0A \<or> c = 0x0B \<or> c = 0x0C \<or> c = 0x0D \<or> c = 0x20 \<or> c = 0xA0 \<or>
     c = 0x1680 \<or> (0x2000 \<le> c \<and> c \<le> 0x200A) \<or> c = 0x2028 \<or> c = 0x2029 \<or>
     c = 0x202F \<or> c = 0x205F \<or> c = 0x3000 \<or> c = 0xFEFF"

text \<open>The class \<^verbatim>\<open>\d\<close>: the ten ASCII digits.\<close>

definition is_digit :: "16 word \<Rightarrow> bool" where
  "is_digit c \<longleftrightarrow> 0x30 \<le> c \<and> c \<le> 0x39"

text \<open>The class \<^verbatim>\<open>\w\<close>: ASCII letters, digits and the underscore.\<close>

definition is_word :: "16 word \<Rightarrow> bool" where
  "is_word c \<longleftrightarrow>
     (0x41 \<le> c \<and> c \<le> 0x5A) \<or> (0x61 \<le> c \<and> c \<le> 0x7A) \<or> is_digit c \<or> c = 0x5F"

section \<open>cleanText\<close>

text \<open>
  \<^verbatim>\<open>text.replace(/\n/g, "")\<close> and \<^verbatim>\<open>.replace(/\t/g, "")\<close>: every occurrence of
  one code unit is replaced by the empty string.
\<close>

definition remove_all :: "16 word \<Rightarrow> jsstring \<Rightarrow> jsstring" where
  "remove_all c s = filter (\<lambda>x. x \<noteq> c) s"

text \<open>
  \<^verbatim>\<open>.replace(/\s\s+/g, "")\<close>, as the global replace scans: at the current position
  the pattern matches when this code unit and the next are white space, and the greedy
  \<^verbatim>\<open>\s+\<close> then takes every white space unit that follows; the match is replaced by
  the empty string and the scan goes on behind it. Where the pattern does not match, the
  code unit is copied and the scan moves one position on.
\<close>

function replace_space_runs :: "jsstring \<Rightarrow> jsstring" where
  "replace_space_runs [] = []"
| "replace_space_runs [c] = [c]"
| "replace_space_runs (c # d # cs) =
     (if is_space c \<and> is_space d then replace_space_runs (dropWhile is_space cs)
      else c # replace_space_runs (d # cs))"
  by pat_completeness auto
termination
proof (relation "measure length")
  show "wf (measure length)" by simp
next
  fix c d :: "16 word" and cs :: jsstring
  have "length (dropWhile is_space cs) \<le> length cs"
    by (rule length_dropWhile_le)
  then show "(dropWhile is_space cs, c # d # cs) \<in> measure length" by simp
next
  fix c d :: "16 word" and cs :: jsstring
  show "(d # cs, c # d # cs) \<in> measure length" by simp
qed

text \<open>\<^verbatim>\<open>.trim()\<close>: white space is removed from both ends.\<close>

definition trim :: "jsstring \<Rightarrow> jsstring" where
  "trim s = rev (dropWhile is_space (rev (dropWhile is_space s)))"

definition cleanText :: "jsstring \<Rightarrow> jsstring" where
  "cleanText text = trim (replace_space_runs (remove_all 0x09 (remove_all 0x0A text)))"

section \<open>Numbers and dates\<close>

text \<open>
  The numbers of the program are integers far below \<open>2\<^sup>5\<^sup>3\<close>, where the arithmetic of
  doubles is exact, or \<^verbatim>\<open>NaN\<close>. A \<^verbatim>\<open>Date\<close> object is its time value: the
  milliseconds since the epoch, or \<^verbatim>\<open>NaN\<close> for an invalid date.
\<close>

datatype number = NaN | Num int

definition msPerSecond :: int where "msPerSecond = 1000"
definition msPerMinute :: int where "msPerMinute = 60000"
definition msPerHour :: int where "msPerHour = 3600000"
definition msPerDay :: int where "msPerDay = 86400000"

text \<open>The abstract operations of ECMAScript behind \<^verbatim>\<open>Date.prototype.setUTCHours\<close>.\<close>

definition Day :: "int \<Rightarrow> int" where
  "Day t = t div msPerDay"

definition MakeTime :: "number \<Rightarrow> number \<Rightarrow> number \<Rightarrow> number \<Rightarrow> number" where
  "MakeTime hour minute sec ms =
     (case (hour, minute, sec, ms) of
        (Num h, Num m, Num s, Num milli) \<Rightarrow>
          Num (h * msPerHour + m * msPerMinute + s * msPerSecond + milli)
      | _ \<Rightarrow> NaN)"

definition MakeDate :: "int \<Rightarrow> number \<Rightarrow> number" where
  "MakeDate day time = (case time of NaN \<Rightarrow> NaN | Num t \<Rightarrow> Num (day * msPerDay + t))"

definition TimeClip :: "number \<Rightarrow> number" where
  "TimeClip time =
     (case time of NaN \<Rightarrow> NaN
      | Num t \<Rightarrow> if \<bar>t\<bar> > 8640000000000000 then NaN else Num t)"

definition setUTCHours :: "number \<Rightarrow> number \<Rightarrow> number \<Rightarrow> number \<Rightarrow> number \<Rightarrow> number" where
  "setUTCHours date hour minute sec ms =
     (case date of NaN \<Rightarrow> NaN
      | Num t \<Rightarrow> TimeClip (MakeDate (Day t) (MakeTime hour minute sec ms)))"

text \<open>What the UTC getters of a valid date read from its time value.\<close>

definition HourFromTime :: "int \<Rightarrow> int" where
  "HourFromTime t = (t div msPerHour) mod 24"

definition MinFromTime :: "int \<Rightarrow> int" where
  "MinFromTime t = (t div msPerMinute) mod 60"

definition SecFromTime :: "int \<Rightarrow> int" where
  "SecFromTime t = (t div msPerSecond) mod 60"

definition msFromTime :: "int \<Rightarrow> int" where
  "msFromTime t = t mod msPerSecond"

text \<open>The binary \<^verbatim>\<open>-\<close> on numbers.\<close>

definition minus_number :: "number \<Rightarrow> number \<Rightarrow> number" where
  "minus_number a b = (case (a, b) of (Num x, Num y) \<Rightarrow> Num (x - y) | _ \<Rightarrow> NaN)"

section \<open>convertToDate\<close>

datatype error = InvalidTimeFormat | UnknownTimeZone | RequestFailed

text \<open>
  The pattern \<^verbatim>\<open>(\d{2}:\d{2})\s\((\w+)\)\<close> tried at the start of a string. The greedy
  \<^verbatim>\<open>\w+\<close> takes the longest run of word units; giving some back never helps, since the
  unit behind a shorter run is a word unit and not the closing parenthesis. The result
  is the two groups.
\<close>

fun match_here :: "jsstring \<Rightarrow> (jsstring \<times> jsstring) option" where
  "match_here (h1 # h2 # c # m1 # m2 # w # p # rest) =
     (if is_digit h1 \<and> is_digit h2 \<and> c = 0x3A \<and> is_digit m1 \<and> is_digit m2 \<and>
         is_space w \<and> p = 0x28 \<and> takeWhile is_word rest \<noteq> [] \<and>
         (case dropWhile is_word rest of [] \<Rightarrow> False | r # _ \<Rightarrow> r = 0x29)
      then Some ([h1, h2, c, m1, m2], takeWhile is_word rest)
      else None)"
| "match_here _ = None"

text \<open>
  \<^verbatim>\<open>timeString.match(timeRegex)\<close>: the pattern is not anchored, so it is tried at
  every position from the left and the first match is the result.
\<close>

fun match_timeRegex :: "jsstring \<Rightarrow> (jsstring \<times> jsstring) option" where
  "match_timeRegex [] = None"
| "match_timeRegex (c # cs) =
     (case match_here (c # cs) of Some m \<Rightarrow> Some m | None \<Rightarrow> match_timeRegex cs)"

text \<open>\<^verbatim>\<open>time.split(":")\<close>.\<close>

fun split :: "16 word \<Rightarrow> jsstring \<Rightarrow> jsstring list" where
  "split sep [] = [[]]"
| "split sep (c # cs) =
     (if c = sep then [] # split sep cs
      else (case split sep cs of [] \<Rightarrow> [[c]] | p # ps \<Rightarrow> (c # p) # ps))"

text \<open>
  \<^verbatim>\<open>Number\<close> on a string of decimal digits, which is all the program applies it to
  (the two groups \<^verbatim>\<open>\d{2}\<close>); strings of another shape are not modelled.
\<close>

definition Number :: "jsstring \<Rightarrow> number" where
  "Number s =
     (if s \<noteq> [] \<and> list_all is_digit s then Num (foldl (\<lambda>n c. 10 * n + (uint c - 48)) 0 s)
      else NaN)"

text \<open>
  \<^verbatim>\<open>const [hours, minutes] = ...\<close>: the first two elements; a missing element is
  \<^verbatim>\<open>undefined\<close>, which is \<^verbatim>\<open>NaN\<close> in the arithmetic that follows.
\<close>

definition first_two :: "number list \<Rightarrow> number \<times> number" where
  "first_two xs =
     (case xs of [] \<Rightarrow> (NaN, NaN) | [h] \<Rightarrow> (h, NaN) | h # m # _ \<Rightarrow> (h, m))"

text \<open>
  What reading a property of the object literal \<^verbatim>\<open>timeZoneOffsets\<close> gives: one of its
  own ten numbers, or, since the literal's prototype is \<^verbatim>\<open>Object.prototype\<close>, a function
  or object inherited from there, or \<^verbatim>\<open>undefined\<close>.
\<close>

datatype property = Undefined | Own int | Inherited

definition timeZoneOffsets :: "(jsstring \<times> int) list" where
  "timeZoneOffsets =
     [(js ''UTC'', 0), (js ''GMT'', 0), (js ''EST'', -5), (js ''EDT'', -4), (js ''CST'', -6),
      (js ''CDT'', -5), (js ''MST'', -7), (js ''MDT'', -6), (js ''PST'', -8), (js ''PDT'', -7)]"

definition Object_prototype :: "jsstring list" where
  "Object_prototype =
     [js ''constructor'', js ''hasOwnProperty'', js ''isPrototypeOf'',
      js ''propertyIsEnumerable'', js ''toLocaleString'', js ''toString'', js ''valueOf'',
      js ''__proto__'', js ''__defineGetter__'', js ''__defineSetter__'',
      js ''__lookupGetter__'', js ''__lookupSetter__'']"

definition get_offset :: "jsstring \<Rightarrow> property" where
  "get_offset key =
     (case map_of timeZoneOffsets key of
        Some n \<Rightarrow> Own n
      | None \<Rightarrow> if key \<in> set Object_prototype then Inherited else Undefined)"

text \<open>
  \<open>now\<close> is the time value of \<^verbatim>\<open>new Date()\<close>. An inherited property is not a number:
  \<^verbatim>\<open>hours - offset\<close> is then \<^verbatim>\<open>NaN\<close>.
\<close>

definition convertToDate :: "int \<Rightarrow> jsstring \<Rightarrow> error + number" where
  "convertToDate now timeString =
     (case match_timeRegex timeString of
        None \<Rightarrow> Inl InvalidTimeFormat
      | Some (time, timeZoneAbbr) \<Rightarrow>
          (case first_two (map Number (split 0x3A time)) of
             (hours, minutes) \<Rightarrow>
               (case get_offset timeZoneAbbr of
                  Undefined \<Rightarrow> Inl UnknownTimeZone
                | Own offset \<Rightarrow>
                    Inr (setUTCHours (Num now) (minus_number hours (Num offset)) minutes
                           (Num 0) (Num 0))
                | Inherited \<Rightarrow>
                    Inr (setUTCHours (Num now) (minus_number hours NaN) minutes
                           (Num 0) (Num 0)))))"

section \<open>Parsed documents and the queries on them\<close>

text \<open>
  A page as \<^verbatim>\<open>cheerio.load\<close> hands it over: a forest of text nodes and elements. Of an
  element the program reads the tag name, the classes, the \<^verbatim>\<open>href\<close> attribute and the
  children.
\<close>

datatype node = Text jsstring | Element jsstring "jsstring list" "jsstring option" "node list"

text \<open>A node followed by all its descendants, in document order.\<close>

fun subtree :: "node \<Rightarrow> node list" where
  "subtree (Text s) = [Text s]"
| "subtree (Element t cs h ks) = Element t cs h ks # concat (map subtree ks)"

fun children :: "node \<Rightarrow> node list" where
  "children (Text s) = []"
| "children (Element t cs h ks) = ks"

definition descendants :: "node \<Rightarrow> node list" where
  "descendants n = concat (map subtree (children n))"

datatype selector = ByClass jsstring | ByTag jsstring

fun matches :: "selector \<Rightarrow> node \<Rightarrow> bool" where
  "matches sel (Text s) = False"
| "matches (ByClass c) (Element t cs h ks) = (c \<in> set cs)"
| "matches (ByTag t') (Element t cs h ks) = (t = t')"

text \<open>\<^verbatim>\<open>$(selector)\<close>: the matching elements of the whole page, in document order.\<close>

definition select :: "selector \<Rightarrow> node list \<Rightarrow> node list" where
  "select sel doc = filter (matches sel) (concat (map subtree doc))"

text \<open>
  \<^verbatim>\<open>.find(selector)\<close>: the matching descendants. The program calls it on selections of
  at most one element.
\<close>

definition find_sel :: "selector \<Rightarrow> node list \<Rightarrow> node list" where
  "find_sel sel els = concat (map (\<lambda>el. filter (matches sel) (descendants el)) els)"

text \<open>\<^verbatim>\<open>.eq(i)\<close>: the selection of the element at index \<open>i\<close>, empty when there is none.\<close>

definition eq_sel :: "node list \<Rightarrow> nat \<Rightarrow> node list" where
  "eq_sel els i = (if i < length els then [els ! i] else [])"

text \<open>\<^verbatim>\<open>.text()\<close>: the text nodes below the selected elements, concatenated.\<close>

fun node_text :: "node \<Rightarrow> jsstring" where
  "node_text (Text s) = s"
| "node_text (Element t cs h ks) = concat (map node_text ks)"

definition text_sel :: "node list \<Rightarrow> jsstring" where
  "text_sel els = concat (map node_text els)"

text \<open>\<^verbatim>\<open>$(link).attr("href")\<close>: \<open>None\<close> is \<^verbatim>\<open>undefined\<close>.\<close>

fun attr_href :: "node \<Rightarrow> jsstring option" where
  "attr_href (Text s) = None"
| "attr_href (Element t cs h ks) = h"

section \<open>scrape\<close>

record PrayerTimings =
  fajr :: "number option"
  snrs :: "number option"
  dhur :: "number option"
  asr :: "number option"
  magh :: "number option"
  isha :: "number option"

record Mosque =
  description :: "jsstring option"
  address :: "jsstring option"
  url :: "jsstring option"
  quickFacts :: "jsstring list"
  governance :: "jsstring list"
  prayerTimings :: PrayerTimings

definition DOMAIN :: jsstring where
  "DOMAIN = js ''https://www.salatomatic.com''"

definition SUB :: jsstring where
  "SUB = js ''/sub/United-States/Alabama/Birmingham/AvcK8i3L3C''"

text \<open>
  The world the program runs in. \<open>axios_get n u\<close> is the page that request number \<open>n\<close>
  (0 for the index page, \<open>k + 1\<close> for the \<open>k\<close>-th mosque) gets for the address \<open>u\<close>, parsed,
  or \<open>None\<close> when the request or the parse throws. \<open>clock k i\<close> is the time value that
  \<^verbatim>\<open>new Date()\<close> reads for the \<open>i\<close>-th prayer time of the \<open>k\<close>-th mosque.
\<close>

record world =
  axios_get :: "nat \<Rightarrow> jsstring \<Rightarrow> node list option"
  clock :: "nat \<Rightarrow> nat \<Rightarrow> int"

text \<open>A value in a template literal: \<^verbatim>\<open>undefined\<close> prints as the word.\<close>

definition template :: "jsstring option \<Rightarrow> jsstring" where
  "template v = (case v of None \<Rightarrow> js ''undefined'' | Some s \<Rightarrow> s)"

text \<open>
  The two nested \<^verbatim>\<open>each\<close> loops that fill \<^verbatim>\<open>mosqueURLs\<close>; the callbacks return
  nothing, so no loop stops early.
\<close>

definition push_links :: "jsstring list \<Rightarrow> node \<Rightarrow> jsstring list" where
  "push_links mosqueURLs div' =
     foldl (\<lambda>urls link. urls @ [DOMAIN @ template (attr_href link)]) mosqueURLs
       (find_sel (ByTag (js ''a'')) [div'])"

definition collect_mosqueURLs :: "node list \<Rightarrow> jsstring list" where
  "collect_mosqueURLs doc = foldl push_links [] (select (ByClass (js ''titleBS'')) doc)"

text \<open>The statements of the inner \<^verbatim>\<open>try\<close> block, each on the record as it stands.\<close>

definition set_address :: "node list \<Rightarrow> Mosque \<Rightarrow> Mosque" where
  "set_address doc mosque =
     mosque\<lparr>address := Some (cleanText (text_sel (eq_sel (select (ByClass (js ''bodyLink'')) doc) 0)))\<rparr>"

definition set_description :: "node list \<Rightarrow> Mosque \<Rightarrow> Mosque" where
  "set_description doc mosque =
     mosque\<lparr>description :=
       Some (cleanText (text_sel (eq_sel (select (ByClass (js ''bodyLink'')) doc) 1)))\<rparr>"

definition push_texts :: "jsstring list \<Rightarrow> node list \<Rightarrow> jsstring list" where
  "push_texts facts els = foldl (\<lambda>acc element. acc @ [cleanText (text_sel [element])]) facts els"

definition push_quickFacts :: "node list \<Rightarrow> Mosque \<Rightarrow> Mosque" where
  "push_quickFacts doc mosque =
     mosque\<lparr>quickFacts :=
       push_texts (quickFacts mosque)
         (find_sel (ByTag (js ''div'')) (eq_sel (select (ByTag (js ''tbody'')) doc) 212))\<rparr>"

definition push_governance :: "node list \<Rightarrow> Mosque \<Rightarrow> Mosque" where
  "push_governance doc mosque =
     mosque\<lparr>governance :=
       push_texts (governance mosque)
         (find_sel (ByTag (js ''div'')) (eq_sel (select (ByTag (js ''tbody'')) doc) 214))\<rparr>"

text \<open>
  An assignment \<^verbatim>\<open>mosque.prayerTimings.x = convertToDate(...)\<close> followed by the rest of
  the block: when the call throws, the rest is skipped and the record is left as it is.
\<close>

definition assign ::
  "error + number \<Rightarrow> (number \<Rightarrow> Mosque \<Rightarrow> Mosque) \<Rightarrow> (Mosque \<Rightarrow> error option \<times> Mosque) \<Rightarrow>
   Mosque \<Rightarrow> error option \<times> Mosque" where
  "assign r store rest mosque =
     (case r of Inl e \<Rightarrow> (Some e, mosque) | Inr d \<Rightarrow> rest (store d mosque))"

definition microLink_text :: "node list \<Rightarrow> nat \<Rightarrow> jsstring" where
  "microLink_text doc i = cleanText (text_sel (eq_sel (select (ByClass (js ''microLink'')) doc) i))"

text \<open>
  The six assignments in the order of the source; \<open>r i\<close> is what the \<open>i\<close>-th call of
  \<^verbatim>\<open>convertToDate\<close> gives.
\<close>

definition assign_slots :: "(nat \<Rightarrow> error + number) \<Rightarrow> Mosque \<Rightarrow> error option \<times> Mosque" where
  "assign_slots r =
     assign (r 0) (\<lambda>d m. m\<lparr>prayerTimings := (prayerTimings m)\<lparr>fajr := Some d\<rparr>\<rparr>)
    (assign (r 1) (\<lambda>d m. m\<lparr>prayerTimings := (prayerTimings m)\<lparr>snrs := Some d\<rparr>\<rparr>)
    (assign (r 2) (\<lambda>d m. m\<lparr>prayerTimings := (prayerTimings m)\<lparr>dhur := Some d\<rparr>\<rparr>)
    (assign (r 3) (\<lambda>d m. m\<lparr>prayerTimings := (prayerTimings m)\<lparr>asr := Some d\<rparr>\<rparr>)
    (assign (r 4) (\<lambda>d m. m\<lparr>prayerTimings := (prayerTimings m)\<lparr>magh := Some d\<rparr>\<rparr>)
    (assign (r 5) (\<lambda>d m. m\<lparr>prayerTimings := (prayerTimings m)\<lparr>isha := Some d\<rparr>\<rparr>)
    (\<lambda>m. (None, m)))))))"

definition set_prayerTimings :: "(nat \<Rightarrow> int) \<Rightarrow> node list \<Rightarrow> Mosque \<Rightarrow> error option \<times> Mosque" where
  "set_prayerTimings now doc =
     assign_slots (\<lambda>i. convertToDate (now i) (microLink_text doc i))"

text \<open>
  The inner \<^verbatim>\<open>try\<close> block behind the request: the error it throws, if any, and the
  record as the statements before the throw have left it.
\<close>

definition try_block :: "(nat \<Rightarrow> int) \<Rightarrow> node list \<Rightarrow> Mosque \<Rightarrow> error option \<times> Mosque" where
  "try_block now doc mosque =
     set_prayerTimings now doc
       (push_governance doc (push_quickFacts doc (set_description doc (set_address doc mosque))))"

definition new_mosque :: "jsstring \<Rightarrow> Mosque" where
  "new_mosque u =
     \<lparr>description = None, address = None, url = Some u, quickFacts = [], governance = [],
      prayerTimings = \<lparr>fajr = None, snrs = None, dhur = None, asr = None, magh = None,
        isha = None\<rparr>\<rparr>"

text \<open>One turn of the \<^verbatim>\<open>for\<close> loop, up to the \<^verbatim>\<open>catch\<close>.\<close>

definition scrape_url :: "world \<Rightarrow> nat \<Rightarrow> jsstring \<Rightarrow> error option \<times> Mosque" where
  "scrape_url w k u =
     (case axios_get w (Suc k) u of
        None \<Rightarrow> (Some RequestFailed, new_mosque u)
      | Some doc \<Rightarrow> try_block (clock w k) doc (new_mosque u))"

text \<open>What \<^verbatim>\<open>console.error\<close> prints.\<close>

datatype log_entry = ErrorFetchingURL jsstring error | ErrorFetchingWebpage error

text \<open>
  The \<^verbatim>\<open>for\<close> loop from its \<open>k\<close>-th turn on: the \<^verbatim>\<open>catch\<close> logs the error, and the
  record is pushed either way.
\<close>

fun scrape_loop ::
  "world \<Rightarrow> nat \<Rightarrow> jsstring list \<Rightarrow> Mosque list \<times> log_entry list \<Rightarrow> Mosque list \<times> log_entry list"
  where
  "scrape_loop w k [] (mosques, log) = (mosques, log)"
| "scrape_loop w k (u # us) (mosques, log) =
     (case scrape_url w k u of
        (None, mosque) \<Rightarrow> scrape_loop w (Suc k) us (mosques @ [mosque], log)
      | (Some e, mosque) \<Rightarrow>
          scrape_loop w (Suc k) us (mosques @ [mosque], log @ [ErrorFetchingURL u e]))"

definition scrape :: "world \<Rightarrow> Mosque list \<times> log_entry list" where
  "scrape w =
     (case axios_get w 0 (DOMAIN @ SUB) of
        None \<Rightarrow> ([], [ErrorFetchingWebpage RequestFailed])
      | Some doc \<Rightarrow> scrape_loop w 0 (collect_mosqueURLs doc) ([], []))"

section \<open>The words of the specification\<close>

text \<open>
  The normalizer as the specification words it, step by step. First newlines and tabs are
  deleted. Then the string is cut into its maximal runs of white space and of other code
  units, and every run of two or more white space units is dropped and every other run
  kept.
\<close>

fun runs :: "jsstring \<Rightarrow> jsstring list" where
  "runs [] = []"
| "runs (c # cs) =
     (case runs cs of
        [] \<Rightarrow> [[c]]
      | r # rs \<Rightarrow> if is_space c = is_space (hd r) then (c # r) # rs else [c] # r # rs)"

definition long_space_run :: "jsstring \<Rightarrow> bool" where
  "long_space_run r \<longleftrightarrow> is_space (hd r) \<and> 2 \<le> length r"

definition collapse :: "jsstring \<Rightarrow> jsstring" where
  "collapse raw =
     concat (filter (\<lambda>r. \<not> long_space_run r)
       (runs (filter (\<lambda>c. c \<noteq> 0x0A \<and> c \<noteq> 0x09) raw)))"

text \<open>
  Last the ends are trimmed: white space is taken off the front one unit at a time, and a
  unit at the back goes when it is white space and nothing but white space follows it.
\<close>

fun strip_start :: "jsstring \<Rightarrow> jsstring" where
  "strip_start [] = []"
| "strip_start (c # cs) = (if is_space c then strip_start cs else c # cs)"

fun strip_end :: "jsstring \<Rightarrow> jsstring" where
  "strip_end [] = []"
| "strip_end (c # cs) =
     (case strip_end cs of [] \<Rightarrow> if is_space c then [] else [c] | r # rs \<Rightarrow> c # r # rs)"

definition normalize :: "jsstring \<Rightarrow> jsstring" where
  "normalize raw = strip_end (strip_start (collapse raw))"

text \<open>No two neighbours are both white space.\<close>

definition no_space_pair :: "jsstring \<Rightarrow> bool" where
  "no_space_pair s = successively (\<lambda>a b. \<not> (is_space a \<and> is_space b)) s"

fun starts_with_space :: "jsstring \<Rightarrow> bool" where
  "starts_with_space [] = False"
| "starts_with_space (c # cs) = is_space c"

definition ends_with_space :: "jsstring \<Rightarrow> bool" where
  "ends_with_space s = starts_with_space (rev s)"

text \<open>The value of the two digits of an hour or a minute.\<close>

definition two_digits :: "16 word \<Rightarrow> 16 word \<Rightarrow> int" where
  "two_digits a b = 10 * (uint a - 48) + (uint b - 48)"

text \<open>
  What the time parser makes of the text of the \<open>i\<close>-th element with the marker of the
  times, and the slot that a result fills.
\<close>

definition parse_slot :: "(nat \<Rightarrow> int) \<Rightarrow> node list \<Rightarrow> nat \<Rightarrow> error + number" where
  "parse_slot now doc i = convertToDate (now i) (microLink_text doc i)"

definition parsed_value :: "error + number \<Rightarrow> number option" where
  "parsed_value r = (case r of Inl e \<Rightarrow> None | Inr d \<Rightarrow> Some d)"

text \<open>
  The slots when each is filled on its own: a slot is absent exactly when its own element
  is missing or does not parse.
\<close>

definition timings_slot_by_slot :: "(nat \<Rightarrow> error + number) \<Rightarrow> PrayerTimings" where
  "timings_slot_by_slot r =
     \<lparr>fajr = parsed_value (r 0), snrs = parsed_value (r 1), dhur = parsed_value (r 2),
      asr = parsed_value (r 3), magh = parsed_value (r 4), isha = parsed_value (r 5)\<rparr>"

text \<open>
  The slots when they are filled in order up to the first failure: a slot is absent when
  its own element or an earlier one is missing or does not parse.
\<close>

definition timings_until_failure :: "(nat \<Rightarrow> error + number) \<Rightarrow> PrayerTimings" where
  "timings_until_failure r =
     \<lparr>fajr = parsed_value (r 0),
      snrs = (if isl (r 0) then None else parsed_value (r 1)),
      dhur = (if isl (r 0) \<or> isl (r 1) then None else parsed_value (r 2)),
      asr = (if isl (r 0) \<or> isl (r 1) \<or> isl (r 2) then None else parsed_value (r 3)),
      magh = (if isl (r 0) \<or> isl (r 1) \<or> isl (r 2) \<or> isl (r 3) then None
              else parsed_value (r 4)),
      isha = (if isl (r 0) \<or> isl (r 1) \<or> isl (r 2) \<or> isl (r 3) \<or> isl (r 4) then None
              else parsed_value (r 5))\<rparr>"

text \<open>The error of the first of the six results that is one.\<close>

definition first_error :: "(nat \<Rightarrow> error + number) \<Rightarrow> error option" where
  "first_error r =
     (case r 0 of Inl e \<Rightarrow> Some e | Inr _ \<Rightarrow>
      (case r 1 of Inl e \<Rightarrow> Some e | Inr _ \<Rightarrow>
      (case r 2 of Inl e \<Rightarrow> Some e | Inr _ \<Rightarrow>
      (case r 3 of Inl e \<Rightarrow> Some e | Inr _ \<Rightarrow>
      (case r 4 of Inl e \<Rightarrow> Some e | Inr _ \<Rightarrow>
      (case r 5 of Inl e \<Rightarrow> Some e | Inr _ \<Rightarrow> None))))))"

text \<open>
  The tag list as the specification words it: the normalized texts of the direct children
  that are \<^verbatim>\<open>div\<close> elements, of the \<^verbatim>\<open>tbody\<close> at a position.
\<close>

definition direct_child_texts :: "node list \<Rightarrow> nat \<Rightarrow> jsstring list" where
  "direct_child_texts doc i =
     map (\<lambda>el. cleanText (node_text el))
       (filter (matches (ByTag (js ''div'')))
          (concat (map children (eq_sel (select (ByTag (js ''tbody'')) doc) i))))"

text \<open>The same with every descendant that is a \<^verbatim>\<open>div\<close> element, in document order.\<close>

definition descendant_texts :: "node list \<Rightarrow> nat \<Rightarrow> jsstring list" where
  "descendant_texts doc i =
     map (\<lambda>el. cleanText (node_text el))
       (filter (matches (ByTag (js ''div'')))
          (concat (map descendants (eq_sel (select (ByTag (js ''tbody'')) doc) i))))"

text \<open>
  The two loops of the link discovery read as one expression: the anchors that the inner
  query finds for each element of the outer one, and the address pushed for an anchor.
\<close>

definition title_anchors :: "node list \<Rightarrow> node list list" where
  "title_anchors doc =
     map (\<lambda>c. filter (matches (ByTag (js ''a''))) (descendants c))
       (select (ByClass (js ''titleBS'')) doc)"

definition link_url :: "node \<Rightarrow> jsstring" where
  "link_url a = DOMAIN @ template (attr_href a)"

text \<open>
  Link discovery as the specification words it. Document order is the order in which a
  reader meets the nodes: the first node of the page, then what is inside it, then what
  follows it.
\<close>

fun in_document_order :: "node list \<Rightarrow> node list" where
  "in_document_order [] = []"
| "in_document_order (Text s # rest) = Text s # in_document_order rest"
| "in_document_order (Element t cs h ks # rest) =
     Element t cs h ks # in_document_order (ks @ rest)"

fun is_title_block :: "node \<Rightarrow> bool" where
  "is_title_block (Text s) = False"
| "is_title_block (Element t cs h ks) = (js ''titleBS'' \<in> set cs)"

fun is_anchor :: "node \<Rightarrow> bool" where
  "is_anchor (Text s) = False"
| "is_anchor (Element t cs h ks) = (t = js ''a'')"

fun below :: "node \<Rightarrow> node list" where
  "below (Text s) = []"
| "below (Element t cs h ks) = in_document_order ks"

text \<open>The title blocks of a page, and for each of them the anchors below it.\<close>

definition title_blocks :: "node list \<Rightarrow> node list" where
  "title_blocks doc = filter is_title_block (in_document_order doc)"

definition title_block_anchors :: "node list \<Rightarrow> node list list" where
  "title_block_anchors doc = map (\<lambda>c. filter is_anchor (below c)) (title_blocks doc)"

section \<open>Example pages\<close>

text \<open>
  An index page as a browser sees it, with three title blocks at different depths: the
  first and the last link to the same mosque, and the anchor of the second has no
  \<^verbatim>\<open>href\<close>.
\<close>

definition nested_index_page :: "node list" where
  "nested_index_page =
     [Element (js ''html'') [] None
        [Element (js ''head'') [] None [Element (js ''title'') [] None [Text (js ''Mosques'')]],
         Element (js ''body'') [] None
           [Element (js ''div'') [js ''titleBS''] None
              [Element (js ''span'') [] None
                 [Element (js ''a'') [] (Some (js ''/m/1'')) [Text (js ''One'')]]],
            Element (js ''table'') [] None
              [Element (js ''div'') [js ''row'', js ''titleBS''] None
                 [Text (js ''see ''), Element (js ''a'') [] None [Text (js ''here'')]]],
            Element (js ''div'') [js ''titleBS''] None
              [Element (js ''a'') [] (Some (js ''/m/1'')) [Text (js ''Again'')]]]]]"

text \<open>A page whose one title block holds an anchor without \<^verbatim>\<open>href\<close>.\<close>

definition no_href_page :: "node list" where
  "no_href_page =
     [Element (js ''html'') [] None
        [Element (js ''body'') [] None
           [Element (js ''div'') [js ''titleBS''] None
              [Element (js ''a'') [] None [Text (js ''Mosque'')]]]]]"

text \<open>An index page with two title blocks that link to two mosques.\<close>

definition index_page :: "node list" where
  "index_page =
     [Element (js ''div'') [js ''titleBS''] None
        [Element (js ''a'') [] (Some (js ''/m/1'')) [Text (js ''One'')]],
      Element (js ''div'') [js ''titleBS''] None
        [Element (js ''a'') [] (Some (js ''/m/2'')) [Text (js ''Two'')]]]"

text \<open>
  A page whose 213th \<^verbatim>\<open>tbody\<close> holds its one \<^verbatim>\<open>div\<close> where HTML puts it: in a cell
  of a row.
\<close>

definition facts_page :: "node list" where
  "facts_page =
     replicate 212 (Element (js ''tbody'') [] None []) @
     [Element (js ''tbody'') [] None
        [Element (js ''tr'') [] None
           [Element (js ''td'') [] None
              [Element (js ''div'') [] None [Text (js ''Sunni'')]]]]]"

text \<open>A detail page with an address and no description.\<close>

definition address_page :: "node list" where
  "address_page = [Element (js ''div'') [js ''bodyLink''] None [Text (js ''12 Main St'')]]"

definition time_element :: "string \<Rightarrow> node" where
  "time_element s = Element (js ''div'') [js ''microLink''] None [Text (js s)]"

text \<open>A detail page whose first time does not parse and whose second does.\<close>

definition late_page :: "node list" where
  "late_page = [time_element ''soon'', time_element ''05:30 (EST)'']"

text \<open>A detail page with an address and exactly four times.\<close>

definition four_times_page :: "node list" where
  "four_times_page =
     [Element (js ''div'') [js ''bodyLink''] None [Text (js ''12 Main St'')],
      time_element ''05:30 (CST)'', time_element ''06:45 (CST)'',
      time_element ''12:15 (CST)'', time_element ''15:30 (CST)'']"

text \<open>
  A run in which the index page arrives, the request for the first mosque fails and the
  second mosque has the page with four times; every clock reading is the epoch.
\<close>

definition first_fails :: world where
  "first_fails =
     \<lparr>axios_get = (\<lambda>n u. if n = 0 then Some index_page else if n = 1 then None
                       else Some four_times_page),
      clock = (\<lambda>k i. 0)\<rparr>"

text \<open>A run in which the request for the index page fails.\<close>

definition no_index :: world where
  "no_index = \<lparr>axios_get = (\<lambda>n u. None), clock = (\<lambda>k i. 0)\<rparr>"

section \<open>The text normalizer\<close>

lemma replace_space_runs_nonspace:
  "\<not> is_space c \<Longrightarrow> replace_space_runs (c # cs) = c # replace_space_runs cs"
  by (cases cs) simp_all

lemma runs_Nil_iff: "runs s = [] \<longleftrightarrow> s = []"
  by (cases s) (auto split: list.splits)

lemma runs_hd: "runs (c # cs) = r # rs \<Longrightarrow> r \<noteq> [] \<and> hd r = c"
  by (auto split: list.splits if_splits)

text \<open>A string that starts with white space starts with a run of it.\<close>

lemma runs_space_block:
  "is_space c \<Longrightarrow> runs (c # cs) = (c # takeWhile is_space cs) # runs (dropWhile is_space cs)"
proof (induction cs arbitrary: c)
  case Nil
  then show ?case by simp
next
  case (Cons d cs)
  show ?case
  proof (cases "is_space d")
    case True
    from Cons.IH [OF True] Cons.prems True show ?thesis by simp
  next
    case False
    obtain r rs where r: "runs (d # cs) = r # rs"
      by (cases "runs (d # cs)") (auto simp: runs_Nil_iff simp del: runs.simps)
    then have "hd r = d" using runs_hd by blast
    with r False Cons.prems show ?thesis
      by (simp del: runs.simps(2) add: runs.simps(2)[of c])
  qed
qed

text \<open>The scan of the global replace drops exactly the long runs of white space.\<close>

lemma replace_space_runs_runs:
  "replace_space_runs s = concat (filter (\<lambda>r. \<not> long_space_run r) (runs s))"
proof (induction s rule: replace_space_runs.induct)
  case 1
  then show ?case by simp
next
  case (2 c)
  then show ?case by (simp add: long_space_run_def)
next
  case (3 c d cs)
  show ?case
  proof (cases "is_space c \<and> is_space d")
    case True
    then have "runs (c # d # cs) = (c # d # takeWhile is_space cs) # runs (dropWhile is_space cs)"
      using runs_space_block [of c "d # cs"] by simp
    with True 3 show ?thesis by (simp add: long_space_run_def)
  next
    case False
    obtain r rs where r: "runs (d # cs) = r # rs"
      by (cases "runs (d # cs)") (auto simp: runs_Nil_iff simp del: runs.simps)
    then have hd: "hd r = d" and ne: "r \<noteq> []" using runs_hd by blast+
    have IH: "replace_space_runs (d # cs) = concat (filter (\<lambda>r. \<not> long_space_run r) (r # rs))"
      using 3(2) False r by simp
    have L: "replace_space_runs (c # d # cs) = c # replace_space_runs (d # cs)"
      using False by auto
    have R: "concat (filter (\<lambda>r. \<not> long_space_run r) (runs (c # d # cs))) =
      c # concat (filter (\<lambda>r. \<not> long_space_run r) (r # rs))"
    proof (cases "is_space c = is_space d")
      case True
      with False have nc: "\<not> is_space c" and nd: "\<not> is_space d" by auto
      have "runs (c # d # cs) = (c # r) # rs"
        using r hd True by (simp del: runs.simps(2) add: runs.simps(2)[of c])
      with nc nd hd show ?thesis by (simp add: long_space_run_def del: runs.simps)
    next
      case F: False
      have "runs (c # d # cs) = [c] # r # rs"
        using r hd F by (simp del: runs.simps(2) add: runs.simps(2)[of c])
      then show ?thesis by (simp add: long_space_run_def del: runs.simps)
    qed
    show ?thesis by (simp only: L R IH)
  qed
qed

lemma remove_all_twice:
  "remove_all 0x09 (remove_all 0x0A s) = filter (\<lambda>c. c \<noteq> 0x0A \<and> c \<noteq> 0x09) s"
  by (induction s) (auto simp: remove_all_def)

lemmas cleanText_eval = cleanText_def trim_def remove_all_def js_def is_space_def

lemma set_replace_space_runs: "set (replace_space_runs s) \<subseteq> set s"
proof (induction s rule: replace_space_runs.induct)
  case (3 c d cs)
  have "set (dropWhile is_space cs) \<subseteq> set cs"
    by (auto dest: set_dropWhileD)
  with 3 show ?case by auto
qed simp_all

lemma set_trim: "set (trim s) \<subseteq> set s"
  by (auto simp: trim_def dest!: set_dropWhileD)

lemma no_space_pair_replace: "no_space_pair (replace_space_runs s)"
proof (induction s rule: replace_space_runs.induct)
  case 1
  then show ?case by (simp add: no_space_pair_def)
next
  case (2 c)
  then show ?case by (simp add: no_space_pair_def)
next
  case (3 c d cs)
  show ?case
  proof (cases "is_space c \<and> is_space d")
    case True
    with 3 show ?thesis by simp
  next
    case False
    then have IH: "no_space_pair (replace_space_runs (d # cs))" using 3(2) by simp
    show ?thesis
    proof (cases "is_space c")
      case True
      with False have "\<not> is_space d" by simp
      then have "replace_space_runs (d # cs) = d # replace_space_runs cs"
        by (rule replace_space_runs_nonspace)
      with IH False \<open>\<not> is_space d\<close> show ?thesis
        by (simp add: no_space_pair_def)
    next
      case F: False
      with IH show ?thesis
        by (auto simp: no_space_pair_def successively_Cons)
    qed
  qed
qed

lemma no_space_pair_dropWhile: "no_space_pair s \<Longrightarrow> no_space_pair (dropWhile P s)"
proof -
  assume "no_space_pair s"
  then have "no_space_pair (takeWhile P s @ dropWhile P s)" by simp
  then show ?thesis unfolding no_space_pair_def successively_append_iff by blast
qed

lemma no_space_pair_rev: "no_space_pair (rev s) = no_space_pair s"
proof -
  have "successively (\<lambda>x y. \<not> (is_space y \<and> is_space x)) s =
    successively (\<lambda>x y. \<not> (is_space x \<and> is_space y)) s"
    by (rule successively_cong) auto
  then show ?thesis unfolding no_space_pair_def successively_rev .
qed

lemma no_space_pair_trim: "no_space_pair s \<Longrightarrow> no_space_pair (trim s)"
  by (simp add: trim_def no_space_pair_rev no_space_pair_dropWhile)

lemma starts_with_space_iff: "starts_with_space s \<longleftrightarrow> s \<noteq> [] \<and> is_space (hd s)"
  by (cases s) simp_all

lemma not_starts_dropWhile: "\<not> starts_with_space (dropWhile is_space s)"
  using hd_dropWhile [of is_space s] by (auto simp: starts_with_space_iff)

lemma trim_Cons_nonspace:
  "\<not> is_space c \<Longrightarrow> rev (dropWhile is_space (rev (c # t))) = c # rev (dropWhile is_space (rev t))"
  by (simp add: dropWhile_append)

lemma not_starts_trim: "\<not> starts_with_space (trim s)"
proof (cases "dropWhile is_space s")
  case Nil
  then have "trim s = []" unfolding trim_def by (simp del: dropWhile_eq_Nil_conv)
  then show ?thesis by simp
next
  case (Cons c t)
  then have "\<not> is_space c" using hd_dropWhile [of is_space s] by auto
  with Cons show ?thesis by (simp add: trim_def trim_Cons_nonspace del: rev.simps)
qed

lemma not_ends_trim: "\<not> ends_with_space (trim s)"
  by (simp add: ends_with_space_def trim_def not_starts_dropWhile)

lemma replace_space_runs_id: "no_space_pair s \<Longrightarrow> replace_space_runs s = s"
  by (induction s rule: replace_space_runs.induct) (auto simp: no_space_pair_def)

lemma dropWhile_not_starts: "\<not> starts_with_space s \<Longrightarrow> dropWhile is_space s = s"
  by (cases s) simp_all

lemma trim_id: "\<not> starts_with_space s \<Longrightarrow> \<not> ends_with_space s \<Longrightarrow> trim s = s"
  by (simp add: trim_def ends_with_space_def dropWhile_not_starts)

lemma remove_all_id: "c \<notin> set s \<Longrightarrow> remove_all c s = s"
  by (induction s) (auto simp: remove_all_def)

lemma cleanText_fixpoint:
  "0x0A \<notin> set s \<Longrightarrow> 0x09 \<notin> set s \<Longrightarrow> no_space_pair s \<Longrightarrow> \<not> starts_with_space s \<Longrightarrow>
   \<not> ends_with_space s \<Longrightarrow> cleanText s = s"
  by (simp add: cleanText_def remove_all_id replace_space_runs_id trim_id)

lemma cleanText_no_newline: "0x0A \<notin> set (cleanText s)"
proof -
  have "set (cleanText s) \<subseteq> set (remove_all 0x0A s)"
    unfolding cleanText_def
    using set_trim set_replace_space_runs by (fastforce simp: remove_all_def)
  then show ?thesis by (auto simp: remove_all_def)
qed

lemma cleanText_no_tab: "0x09 \<notin> set (cleanText s)"
proof -
  have "set (cleanText s) \<subseteq> set (remove_all 0x09 (remove_all 0x0A s))"
    unfolding cleanText_def
    using set_trim set_replace_space_runs by fastforce
  then show ?thesis by (auto simp: remove_all_def)
qed

lemma cleanText_no_space_pair: "no_space_pair (cleanText s)"
  by (simp add: cleanText_def no_space_pair_trim no_space_pair_replace)

lemma strip_start_dropWhile: "strip_start s = dropWhile is_space s"
  by (induction s) simp_all

lemma strip_end_rev: "strip_end s = rev (dropWhile is_space (rev s))"
proof (induction s)
  case Nil
  then show ?case by simp
next
  case (Cons c cs)
  show ?case
  proof (cases "\<forall>x\<in>set cs. is_space x")
    case True
    then have "strip_end cs = []" by (simp add: Cons.IH)
    with True show ?thesis by (simp add: dropWhile_append)
  next
    case False
    then have "strip_end cs \<noteq> []" by (simp add: Cons.IH)
    then obtain r rs where "strip_end cs = r # rs" by (cases "strip_end cs") auto
    then have "strip_end (c # cs) = c # strip_end cs" by simp
    moreover have "rev (dropWhile is_space (rev (c # cs))) = c # rev (dropWhile is_space (rev cs))"
      using False by (simp add: dropWhile_append)
    ultimately show ?thesis by (simp only: Cons.IH)
  qed
qed

lemma trim_strip: "trim s = strip_end (strip_start s)"
  by (simp add: trim_def strip_start_dropWhile strip_end_rev)

text \<open>Trimming takes a stretch of white space off each end, and nothing else.\<close>

lemma trim_between: "\<exists>a b. s = a @ trim s @ b \<and> list_all is_space a \<and> list_all is_space b"
proof -
  define y where "y = dropWhile is_space s"
  have "rev (takeWhile is_space (rev y) @ dropWhile is_space (rev y)) =
      rev (dropWhile is_space (rev y)) @ rev (takeWhile is_space (rev y))"
    by (rule rev_append)
  then have "rev (rev y) = rev (dropWhile is_space (rev y)) @ rev (takeWhile is_space (rev y))"
    by (simp only: takeWhile_dropWhile_id)
  moreover have "trim s = rev (dropWhile is_space (rev y))"
    by (simp only: trim_def y_def)
  ultimately have y: "y = trim s @ rev (takeWhile is_space (rev y))"
    by (simp only: rev_rev_ident)
  have "s = takeWhile is_space s @ y" by (simp add: y_def)
  with y have "s = takeWhile is_space s @ trim s @ rev (takeWhile is_space (rev y))" by simp
  moreover have "list_all is_space (takeWhile is_space s)"
    by (auto simp: list_all_iff dest: set_takeWhileD)
  moreover have "list_all is_space (rev (takeWhile is_space (rev y)))"
    by (auto simp: list_all_iff dest: set_takeWhileD)
  ultimately show ?thesis by blast
qed

lemma cleanText_trim_collapse: "cleanText s = trim (collapse s)"
  by (simp add: cleanText_def collapse_def replace_space_runs_runs remove_all_twice)

text \<open>
  C7. \<open>cleanText\<close> is the normalizer of the specification, step by step: it deletes
  every newline and tab, then drops every run of two or more white space code units and
  keeps every other run (a single space stays), then trims both ends. The trimming is
  real: the result is what the first two steps give, less a stretch of white space at the
  front and one at the back, and it neither starts nor ends with white space. It is a
  total function, it maps the empty string to itself, \<^verbatim>\<open>a\n\tb\<close> to \<^verbatim>\<open>ab\<close> and
  \<^verbatim>\<open>a    b\<close> to \<^verbatim>\<open>ab\<close>, it leaves the single space of \<^verbatim>\<open>a b\<close> alone, and it takes
  the single spaces off the ends of \<^verbatim>\<open> a b \<close>.
\<close>

theorem cleanText_is_normalize:
  "cleanText s = normalize s \<and>
   (\<exists>a b. collapse s = a @ cleanText s @ b \<and> list_all is_space a \<and> list_all is_space b) \<and>
   \<not> starts_with_space (cleanText s) \<and> \<not> ends_with_space (cleanText s) \<and>
   cleanText [] = [] \<and>
   cleanText (js ''a'' @ [0x0A, 0x09] @ js ''b'') = js ''ab'' \<and>
   cleanText (js ''a    b'') = js ''ab'' \<and>
   cleanText (js ''a b'') = js ''a b'' \<and>
   cleanText (js '' a b '') = js ''a b'' \<and>
   cleanText ([0x0A] @ js ''  a'' @ [0x09] @ js '' '') = js ''a''"
proof -
  have "cleanText s = normalize s"
    by (simp add: cleanText_trim_collapse normalize_def trim_strip)
  moreover have "\<exists>a b. collapse s = a @ cleanText s @ b \<and> list_all is_space a \<and>
      list_all is_space b"
    unfolding cleanText_trim_collapse by (rule trim_between)
  moreover have "\<not> starts_with_space (cleanText s)" "\<not> ends_with_space (cleanText s)"
    by (simp_all add: cleanText_def not_starts_trim not_ends_trim)
  moreover have "cleanText [] = []"
    by (simp add: cleanText_eval)
  moreover have "cleanText (js ''a'' @ [0x0A, 0x09] @ js ''b'') = js ''ab''"
    by (simp add: cleanText_eval)
  moreover have "cleanText (js ''a    b'') = js ''ab''"
    by (simp add: cleanText_eval)
  moreover have "cleanText (js ''a b'') = js ''a b''"
    by (simp add: cleanText_eval)
  moreover have "cleanText (js '' a b '') = js ''a b''"
    by (simp add: cleanText_eval)
  moreover have "cleanText ([0x0A] @ js ''  a'' @ [0x09] @ js '' '') = js ''a''"
    by (simp add: cleanText_eval)
  ultimately show ?thesis by blast
qed

text \<open>
  C10. \<open>cleanText\<close> is idempotent: what it returns holds no newline and no tab, no
  two neighbouring white space code units, and no white space at either end, so a second
  pass changes nothing.
\<close>

theorem cleanText_idempotent:
  "cleanText (cleanText s) = cleanText s \<and>
   0x0A \<notin> set (cleanText s) \<and> 0x09 \<notin> set (cleanText s) \<and>
   no_space_pair (cleanText s) \<and>
   \<not> starts_with_space (cleanText s) \<and> \<not> ends_with_space (cleanText s)"
proof -
  have a: "\<not> starts_with_space (cleanText s)" and b: "\<not> ends_with_space (cleanText s)"
    by (simp_all add: cleanText_def not_starts_trim not_ends_trim)
  from cleanText_no_newline cleanText_no_tab cleanText_no_space_pair a b
  show ?thesis by (simp add: cleanText_fixpoint)
qed

section \<open>The time parser\<close>

lemmas date_eval = setUTCHours_def TimeClip_def MakeDate_def MakeTime_def Day_def
  minus_number_def msPerDay_def msPerHour_def msPerMinute_def msPerSecond_def

lemmas convertToDate_eval = convertToDate_def js_def is_space_def is_digit_def is_word_def
  Number_def first_two_def get_offset_def timeZoneOffsets_def Object_prototype_def

text \<open>
  The two errors: the first exactly when the pattern matches nowhere in the string, the
  second exactly when the abbreviation of the first match is neither an entry of the table
  nor an inherited property.
\<close>

lemma convertToDate_InvalidTimeFormat_iff:
  "convertToDate now s = Inl InvalidTimeFormat \<longleftrightarrow> match_timeRegex s = None"
  by (auto simp: convertToDate_def split: option.splits prod.splits property.splits)

lemma convertToDate_UnknownTimeZone_iff:
  "convertToDate now s = Inl UnknownTimeZone \<longleftrightarrow>
   (\<exists>time tz. match_timeRegex s = Some (time, tz) \<and> get_offset tz = Undefined)"
  by (auto simp: convertToDate_def split: option.splits prod.splits property.splits)

lemma is_word_tz: "(tz, off) \<in> set timeZoneOffsets \<Longrightarrow> list_all is_word tz \<and> tz \<noteq> []"
  by (auto simp: timeZoneOffsets_def js_def is_word_def is_digit_def)

lemma get_offset_tz: "(tz, off) \<in> set timeZoneOffsets \<Longrightarrow> get_offset tz = Own off"
  by (auto simp: get_offset_def timeZoneOffsets_def js_def)

lemma takeWhile_word_paren: "list_all is_word tz \<Longrightarrow> takeWhile is_word (tz @ 0x29 # rest) = tz"
  by (induction tz) (auto simp: is_word_def is_digit_def)

lemma dropWhile_word_paren: "list_all is_word tz \<Longrightarrow> dropWhile is_word (tz @ 0x29 # rest) = 0x29 # rest"
  by (induction tz) (auto simp: is_word_def is_digit_def)

lemma match_here_form:
  assumes "is_digit h1" "is_digit h2" "is_digit m1" "is_digit m2" "is_space w"
    and "list_all is_word tz" "tz \<noteq> []"
  shows "match_here ([h1, h2, 0x3A, m1, m2, w, 0x28] @ tz @ 0x29 # rest) = Some ([h1, h2, 0x3A, m1, m2], tz)"
  using assms by (simp add: takeWhile_word_paren dropWhile_word_paren)

lemma Number_two_digits: "is_digit a \<Longrightarrow> is_digit b \<Longrightarrow> Number [a, b] = Num (two_digits a b)"
  by (simp add: Number_def two_digits_def)

lemma split_time:
  "is_digit h1 \<Longrightarrow> is_digit h2 \<Longrightarrow> is_digit m1 \<Longrightarrow> is_digit m2 \<Longrightarrow>
   split 0x3A [h1, h2, 0x3A, m1, m2] = [[h1, h2], [m1, m2]]"
  by (auto simp: is_digit_def)

lemma two_digits_range: "is_digit a \<Longrightarrow> is_digit b \<Longrightarrow> 0 \<le> two_digits a b \<and> two_digits a b \<le> 99"
  unfolding is_digit_def two_digits_def
  by (auto simp: word_le_def)


lemma div_add_small:
  fixes q r b :: int
  assumes "0 \<le> r" "r < b"
  shows "(q * b + r) div b = q"
proof -
  have "b \<noteq> 0" using assms by simp
  then have "(q * b + r) div b = q + r div b" by simp
  with assms show ?thesis by (simp add: div_pos_pos_trivial)
qed

lemma mod_add_small:
  fixes q r b :: int
  assumes "0 \<le> r" "r < b"
  shows "(q * b + r) mod b = r"
  using assms by (simp add: mod_pos_pos_trivial)

lemma Day_bounds: "Day now * msPerDay \<le> now \<and> now < Day now * msPerDay + msPerDay"
proof -
  have "now = Day now * msPerDay + now mod msPerDay"
    by (simp add: Day_def)
  moreover have "0 \<le> now mod msPerDay" "now mod msPerDay < msPerDay"
    by (simp_all add: msPerDay_def)
  ultimately show ?thesis by linarith
qed

lemma instant_fields:
  fixes D H M :: int
  assumes "0 \<le> H" "0 \<le> M"
  defines "t \<equiv> D * msPerDay + H * msPerHour + M * msPerMinute"
  shows "SecFromTime t = 0" "msFromTime t = 0"
    "H < 24 \<Longrightarrow> M < 60 \<Longrightarrow> HourFromTime t = H \<and> MinFromTime t = M \<and> Day t = D"
proof -
  have t1: "t = (D * 1440 + H * 60 + M) * 60 * 1000"
    by (simp add: t_def msPerDay_def msPerHour_def msPerMinute_def)
  show "SecFromTime t = 0" by (simp add: t1 SecFromTime_def msPerSecond_def)
  show "msFromTime t = 0" by (simp add: t1 msFromTime_def msPerSecond_def)
  assume H: "H < 24" and M: "M < 60"
  have "t = (D * 24 + H) * msPerHour + M * msPerMinute"
    by (simp add: t_def msPerDay_def msPerHour_def msPerMinute_def)
  moreover have "0 \<le> M * msPerMinute" "M * msPerMinute < msPerHour"
    using assms M by (simp_all add: msPerHour_def msPerMinute_def)
  ultimately have "t div msPerHour = D * 24 + H"
    by (simp add: div_add_small)
  then have h: "HourFromTime t = H"
    using assms H by (simp add: HourFromTime_def)
  have "t = (D * 1440 + H * 60 + M) * msPerMinute"
    by (simp add: t_def msPerDay_def msPerHour_def msPerMinute_def)
  then have "t div msPerMinute = (D * 24 + H) * 60 + M"
    by (simp add: msPerMinute_def)
  moreover have "((D * 24 + H) * 60 + M) mod 60 = M"
    using assms M by (intro mod_add_small) simp_all
  ultimately have m: "MinFromTime t = M"
    by (simp only: MinFromTime_def)
  have "t = D * msPerDay + (H * msPerHour + M * msPerMinute)"
    by (simp add: t_def)
  moreover have "0 \<le> H * msPerHour + M * msPerMinute" "H * msPerHour + M * msPerMinute < msPerDay"
    using assms H M by (simp_all add: msPerDay_def msPerHour_def msPerMinute_def)
  ultimately have "Day t = D"
    unfolding Day_def by (simp only: div_add_small)
  with h m show "HourFromTime t = H \<and> MinFromTime t = M \<and> Day t = D" by simp
qed

lemma tz_offset_range: "(tz, off) \<in> set timeZoneOffsets \<Longrightarrow> -8 \<le> off \<and> off \<le> 0"
  by (auto simp: timeZoneOffsets_def)

text \<open>
  C1, as amended. For two digits of the hour, two of the minute and an abbreviation of the
  offset table, and a reference time that is a valid time value with five days of room,
  \<open>convertToDate\<close> returns the instant that lies (hour - offset) hours and the parsed
  minutes after UTC midnight of the reference date, with seconds and milliseconds zero.
  Whenever hour - offset is below 24 and the minute below 60, its UTC hour is hour - offset,
  its minute the parsed minute and its date the reference date. Beyond that the hours carry
  into the following days.
\<close>

theorem convertToDate_table_entry:
  assumes digits: "is_digit h1" "is_digit h2" "is_digit m1" "is_digit m2"
    and tz: "(tz, off) \<in> set timeZoneOffsets"
    and now: "\<bar>now\<bar> \<le> 8640000000000000 - 5 * msPerDay"
  shows "\<exists>t. convertToDate now ([h1, h2, 0x3A, m1, m2, 0x20, 0x28] @ tz @ [0x29]) = Inr (Num t) \<and>
    t = Day now * msPerDay + (two_digits h1 h2 - off) * msPerHour + two_digits m1 m2 * msPerMinute \<and>
    SecFromTime t = 0 \<and> msFromTime t = 0 \<and>
    (two_digits h1 h2 - off < 24 \<and> two_digits m1 m2 < 60 \<longrightarrow>
       HourFromTime t = two_digits h1 h2 - off \<and> MinFromTime t = two_digits m1 m2 \<and>
       Day t = Day now)"
proof -
  define H where "H = two_digits h1 h2 - off"
  define M where "M = two_digits m1 m2"
  define t where "t = Day now * msPerDay + H * msPerHour + M * msPerMinute"
  have H: "0 \<le> H" "H \<le> 107" and M: "0 \<le> M" "M \<le> 99"
    using two_digits_range [OF digits(1,2)] two_digits_range [OF digits(3,4)]
      tz_offset_range [OF tz] by (simp_all add: H_def M_def)
  have sp: "is_space 0x20" by (simp add: is_space_def)
  have "match_here ([h1, h2, 0x3A, m1, m2, 0x20, 0x28] @ tz @ 0x29 # []) =
      Some ([h1, h2, 0x3A, m1, m2], tz)"
    using digits sp is_word_tz [OF tz] by (intro match_here_form) simp_all
  then have m: "match_timeRegex ([h1, h2, 0x3A, m1, m2, 0x20, 0x28] @ tz @ [0x29]) =
      Some ([h1, h2, 0x3A, m1, m2], tz)"
    by simp
  have "convertToDate now ([h1, h2, 0x3A, m1, m2, 0x20, 0x28] @ tz @ [0x29]) =
      Inr (setUTCHours (Num now) (Num H) (Num M) (Num 0) (Num 0))"
    unfolding convertToDate_def m
    by (simp add: split_time [OF digits] Number_two_digits digits first_two_def
        get_offset_tz [OF tz] minus_number_def H_def M_def del: split.simps)
  moreover have "setUTCHours (Num now) (Num H) (Num M) (Num 0) (Num 0) = Num t"
  proof -
    have "\<bar>t\<bar> \<le> 8640000000000000"
      using Day_bounds [of now] now H M
      unfolding t_def msPerDay_def msPerHour_def msPerMinute_def by linarith
    then show ?thesis
      by (simp add: setUTCHours_def MakeTime_def MakeDate_def TimeClip_def t_def msPerSecond_def)
  qed
  ultimately have "convertToDate now ([h1, h2, 0x3A, m1, m2, 0x20, 0x28] @ tz @ [0x29]) = Inr (Num t)"
    by simp
  with instant_fields [OF H(1) M(1), of "Day now"] show ?thesis
    unfolding t_def H_def M_def by blast
qed

text \<open>
  The example of the specification: \<^verbatim>\<open>05:30 (EST)\<close> is read as 10:30 UTC on the
  reference date.
\<close>

theorem convertToDate_table_entry_witness:
  "\<exists>t. convertToDate 1762164000000 (js ''05:30 (EST)'') = Inr (Num t) \<and>
     HourFromTime t = 10 \<and> MinFromTime t = 30 \<and> SecFromTime t = 0 \<and> msFromTime t = 0 \<and>
     Day t = Day 1762164000000"
proof -
  have tz: "(js ''EST'', -5) \<in> set timeZoneOffsets" by (simp add: timeZoneOffsets_def)
  have s: "js ''05:30 (EST)'' = [0x30, 0x35, 0x3A, 0x33, 0x30, 0x20, 0x28] @ js ''EST'' @ [0x29]"
    by (simp add: js_def)
  have d: "is_digit 0x30" "is_digit 0x35" "is_digit 0x33" by (simp_all add: is_digit_def)
  have n: "\<bar>1762164000000\<bar> \<le> 8640000000000000 - 5 * msPerDay" by (simp add: msPerDay_def)
  have v: "two_digits 0x30 0x35 = 5" "two_digits 0x33 0x30 = 30" by (simp_all add: two_digits_def)
  from convertToDate_table_entry [OF d(1) d(2) d(3) d(1) tz n]
  show ?thesis unfolding s v by auto
qed

text \<open>
  C1 as stated fails: \<^verbatim>\<open>20:00 (EST)\<close> on the first day of the epoch is 01:00 UTC of the
  second day, so the UTC hour is not 20 + 5 and the date is not the reference date.
\<close>

theorem convertToDate_next_day:
  "convertToDate 0 (js ''20:00 (EST)'') = Inr (Num 90000000) \<and>
   HourFromTime 90000000 \<noteq> 20 - (-5) \<and> Day 90000000 \<noteq> Day 0"
  by (simp add: convertToDate_eval date_eval HourFromTime_def)

text \<open>
  C2. The abbreviation \<^verbatim>\<open>constructor\<close> is none of the ten entries of the table, yet
  \<^verbatim>\<open>05:30 (constructor)\<close> raises no error: the lookup finds the property that every
  object inherits, the check against \<^verbatim>\<open>undefined\<close> passes, and an invalid date is
  returned.
\<close>

theorem convertToDate_inherited_property:
  "convertToDate now (js ''05:30 (constructor)'') = Inr NaN \<and>
   map_of timeZoneOffsets (js ''constructor'') = None"
  by (simp add: convertToDate_eval date_eval)

text \<open>The two failing examples of the specification.\<close>

lemma convertToDate_examples:
  "convertToDate now (js ''05:30 (XYZ)'') = Inl UnknownTimeZone"
  "convertToDate now (js ''5:30pm'') = Inl InvalidTimeFormat"
  by (simp_all add: convertToDate_eval date_eval)

section \<open>Link discovery and the fields of a record\<close>

lemma foldl_push: "foldl (\<lambda>acc x. acc @ [f x]) acc xs = acc @ map f xs"
  by (induction xs arbitrary: acc) simp_all

lemma text_sel_single: "text_sel [el] = node_text el"
  by (simp add: text_sel_def)

lemma push_links_append:
  "push_links urls d = urls @ map link_url (filter (matches (ByTag (js ''a''))) (descendants d))"
  unfolding push_links_def find_sel_def using foldl_push [of "\<lambda>link. DOMAIN @ template (attr_href link)"]
  by (simp add: link_url_def [abs_def])

lemma foldl_push_links:
  "foldl push_links urls cs =
   urls @ concat (map (\<lambda>c. map link_url (filter (matches (ByTag (js ''a''))) (descendants c))) cs)"
  by (induction cs arbitrary: urls) (simp_all add: push_links_append)

lemma collect_mosqueURLs_concat:
  "collect_mosqueURLs doc = concat (map (map link_url) (title_anchors doc))"
  by (simp add: collect_mosqueURLs_def title_anchors_def foldl_push_links comp_def)

lemma concat_singletons:
  "list_all (\<lambda>as. length as = 1) xss \<Longrightarrow> concat (map (map f) xss) = map (\<lambda>as. f (hd as)) xss"
proof (induction xss)
  case Nil
  then show ?case by simp
next
  case (Cons as xss)
  then obtain a where "as = [a]" by (cases as) auto
  with Cons show ?case by simp
qed

text \<open>The queries of the program find what the specification describes.\<close>

lemma in_document_order_subtree: "in_document_order doc = concat (map subtree doc)"
  by (induction doc rule: in_document_order.induct) simp_all

lemma select_title_blocks: "select (ByClass (js ''titleBS'')) doc = title_blocks doc"
proof -
  have "matches (ByClass (js ''titleBS'')) n = is_title_block n" for n
    by (cases n) simp_all
  then show ?thesis
    by (simp add: select_def title_blocks_def in_document_order_subtree cong: filter_cong)
qed

lemma anchors_below:
  "filter (matches (ByTag (js ''a''))) (descendants c) = filter is_anchor (below c)"
proof -
  have "matches (ByTag (js ''a'')) n = is_anchor n" for n
    by (cases n) auto
  moreover have "descendants c = below c"
    by (cases c) (simp_all add: descendants_def in_document_order_subtree)
  ultimately show ?thesis by (simp cong: filter_cong)
qed

lemma title_anchors_eq: "title_anchors doc = title_block_anchors doc"
  by (simp add: title_anchors_def title_block_anchors_def select_title_blocks anchors_below)

lemma length_concat_singletons:
  "list_all (\<lambda>as. length as = 1) xss \<Longrightarrow> length (concat (map (map f) xss)) = length xss"
  by (simp add: concat_singletons)

text \<open>
  C9, as amended. Link discovery returns, for each title block of the page in document
  order, one address for each anchor below it in document order: the domain followed by the
  anchor's link target, and by the word \<^verbatim>\<open>undefined\<close> when the anchor has no link target.
  Nothing is removed, so a target that occurs twice is returned twice. A page with no title
  block gives the empty list, and title blocks with exactly one anchor each give exactly one
  address per block.
\<close>

theorem collect_mosqueURLs_links:
  "collect_mosqueURLs doc =
     concat (map (map (\<lambda>a. DOMAIN @ (case attr_href a of None \<Rightarrow> js ''undefined'' | Some h \<Rightarrow> h)))
       (title_block_anchors doc)) \<and>
   (title_blocks doc = [] \<longrightarrow> collect_mosqueURLs doc = []) \<and>
   (list_all (\<lambda>as. length as = 1) (title_block_anchors doc) \<longrightarrow>
      length (collect_mosqueURLs doc) = length (title_blocks doc))"
proof -
  have l: "link_url = (\<lambda>a. DOMAIN @ (case attr_href a of None \<Rightarrow> js ''undefined'' | Some h \<Rightarrow> h))"
    by (simp add: fun_eq_iff link_url_def template_def)
  have 1: "collect_mosqueURLs doc =
     concat (map (map (\<lambda>a. DOMAIN @ (case attr_href a of None \<Rightarrow> js ''undefined'' | Some h \<Rightarrow> h)))
       (title_block_anchors doc))"
    using collect_mosqueURLs_concat [of doc] unfolding l title_anchors_eq .
  have 2: "collect_mosqueURLs doc = []" if "title_blocks doc = []"
    using that by (simp add: 1 title_block_anchors_def)
  have 3: "length (collect_mosqueURLs doc) = length (title_blocks doc)"
    if "list_all (\<lambda>as. length as = 1) (title_block_anchors doc)"
  proof -
    have "length (collect_mosqueURLs doc) = length (title_block_anchors doc)"
      unfolding 1 using that by (rule length_concat_singletons)
    then show ?thesis by (simp add: title_block_anchors_def)
  qed
  from 1 2 3 show ?thesis by blast
qed

lemmas dom_eval = select_def find_sel_def eq_sel_def text_sel_def descendants_def js_def

text \<open>
  The page with three title blocks at different depths, and a page with none.
\<close>

theorem collect_mosqueURLs_links_witness:
  "list_all (\<lambda>as. length as = 1) (title_block_anchors nested_index_page) \<and>
   length (title_blocks nested_index_page) = 3 \<and>
   length (collect_mosqueURLs nested_index_page) = 3 \<and>
   collect_mosqueURLs nested_index_page =
     [DOMAIN @ js ''/m/1'', DOMAIN @ js ''undefined'', DOMAIN @ js ''/m/1''] \<and>
   title_blocks address_page = [] \<and> collect_mosqueURLs address_page = []"
proof -
  have b: "title_blocks nested_index_page =
     [Element (js ''div'') [js ''titleBS''] None
        [Element (js ''span'') [] None
           [Element (js ''a'') [] (Some (js ''/m/1'')) [Text (js ''One'')]]],
      Element (js ''div'') [js ''row'', js ''titleBS''] None
        [Text (js ''see ''), Element (js ''a'') [] None [Text (js ''here'')]],
      Element (js ''div'') [js ''titleBS''] None
        [Element (js ''a'') [] (Some (js ''/m/1'')) [Text (js ''Again'')]]]"
    by (simp add: title_blocks_def nested_index_page_def js_def)
  have t: "title_block_anchors nested_index_page =
     [[Element (js ''a'') [] (Some (js ''/m/1'')) [Text (js ''One'')]],
      [Element (js ''a'') [] None [Text (js ''here'')]],
      [Element (js ''a'') [] (Some (js ''/m/1'')) [Text (js ''Again'')]]]"
    unfolding title_block_anchors_def b by (simp add: js_def)
  have h: "list_all (\<lambda>as. length as = 1) (title_block_anchors nested_index_page)"
    unfolding t by simp
  have e: "title_blocks address_page = []"
    by (simp add: title_blocks_def address_page_def js_def)
  note n = collect_mosqueURLs_links [of nested_index_page]
  from n h have 1: "length (collect_mosqueURLs nested_index_page) =
      length (title_blocks nested_index_page)"
    by blast
  from n have "collect_mosqueURLs nested_index_page =
     concat (map (map (\<lambda>a. DOMAIN @ (case attr_href a of None \<Rightarrow> js ''undefined'' | Some h \<Rightarrow> h)))
       (title_block_anchors nested_index_page))"
    by blast
  then have 2: "collect_mosqueURLs nested_index_page =
     [DOMAIN @ js ''/m/1'', DOMAIN @ js ''undefined'', DOMAIN @ js ''/m/1'']"
    unfolding t by simp
  from collect_mosqueURLs_links [of address_page] e
  have 3: "collect_mosqueURLs address_page = []" by blast
  from h 1 2 3 e show ?thesis unfolding b by simp
qed

text \<open>
  C9 as stated fails: the one anchor of this page has no link target, and the address
  returned for it is the domain followed by the word \<^verbatim>\<open>undefined\<close>.
\<close>

theorem anchor_without_href:
  "title_block_anchors no_href_page = [[Element (js ''a'') [] None [Text (js ''Mosque'')]]] \<and>
   attr_href (Element (js ''a'') [] None [Text (js ''Mosque'')]) = None \<and>
   collect_mosqueURLs no_href_page = [js ''https://www.salatomatic.comundefined'']"
proof -
  have "title_anchors no_href_page = [[Element (js ''a'') [] None [Text (js ''Mosque'')]]]"
    by (simp add: title_anchors_def no_href_page_def dom_eval)
  then show ?thesis
    by (simp add: title_anchors_eq [symmetric] collect_mosqueURLs_concat link_url_def
        template_def DOMAIN_def js_def)
qed

lemma assign_Inl: "assign (Inl e) st rest m = (Some e, m)"
  by (simp add: assign_def)

lemma assign_Inr: "assign (Inr d) st rest m = rest (st d m)"
  by (simp add: assign_def)

lemma assign_slots_fields:
  "address (snd (assign_slots r m)) = address m \<and>
   description (snd (assign_slots r m)) = description m \<and>
   url (snd (assign_slots r m)) = url m \<and>
   quickFacts (snd (assign_slots r m)) = quickFacts m \<and>
   governance (snd (assign_slots r m)) = governance m"
  unfolding assign_slots_def
  by (cases "r 0"; simp add: assign_Inl assign_Inr;
      cases "r 1"; simp add: assign_Inl assign_Inr;
      cases "r 2"; simp add: assign_Inl assign_Inr;
      cases "r 3"; simp add: assign_Inl assign_Inr;
      cases "r 4"; simp add: assign_Inl assign_Inr;
      cases "r 5"; simp add: assign_Inl assign_Inr)

lemma assign_slots_error: "fst (assign_slots r m) = first_error r"
  unfolding assign_slots_def first_error_def
  by (cases "r 0"; simp add: assign_Inl assign_Inr;
      cases "r 1"; simp add: assign_Inl assign_Inr;
      cases "r 2"; simp add: assign_Inl assign_Inr;
      cases "r 3"; simp add: assign_Inl assign_Inr;
      cases "r 4"; simp add: assign_Inl assign_Inr;
      cases "r 5"; simp add: assign_Inl assign_Inr)

lemma assign_slots_timings:
  "prayerTimings (snd (assign_slots r (new_mosque u))) = timings_until_failure r"
  unfolding assign_slots_def timings_until_failure_def new_mosque_def
  by (cases "r 0"; simp add: assign_Inl assign_Inr parsed_value_def;
      cases "r 1"; simp add: assign_Inl assign_Inr;
      cases "r 2"; simp add: assign_Inl assign_Inr;
      cases "r 3"; simp add: assign_Inl assign_Inr;
      cases "r 4"; simp add: assign_Inl assign_Inr;
      cases "r 5"; simp add: assign_Inl assign_Inr)

lemma push_texts_append:
  "push_texts facts els = facts @ map (\<lambda>el. cleanText (node_text el)) els"
  unfolding push_texts_def text_sel_single by (rule foldl_push)

lemma find_sel_eq_sel:
  "find_sel sel (eq_sel els i) = filter (matches sel) (concat (map descendants (eq_sel els i)))"
  by (simp add: find_sel_def eq_sel_def)


lemma set_prayerTimings_fields:
  "address (snd (set_prayerTimings now doc m)) = address m \<and>
   description (snd (set_prayerTimings now doc m)) = description m \<and>
   url (snd (set_prayerTimings now doc m)) = url m \<and>
   quickFacts (snd (set_prayerTimings now doc m)) = quickFacts m \<and>
   governance (snd (set_prayerTimings now doc m)) = governance m"
  unfolding set_prayerTimings_def by (rule assign_slots_fields)

lemma try_block_error: "fst (try_block now doc m) = first_error (parse_slot now doc)"
  by (simp add: try_block_def set_prayerTimings_def assign_slots_error parse_slot_def [abs_def])

lemma try_block_timings:
  "prayerTimings (snd (try_block now doc (new_mosque u))) =
   timings_until_failure (parse_slot now doc)"
proof -
  have "push_governance doc (push_quickFacts doc (set_description doc (set_address doc
      (new_mosque u)))) =
    (new_mosque u)\<lparr>description := Some (cleanText (text_sel (eq_sel (select (ByClass (js ''bodyLink'')) doc) 1))),
      address := Some (cleanText (text_sel (eq_sel (select (ByClass (js ''bodyLink'')) doc) 0))),
      quickFacts := push_texts [] (find_sel (ByTag (js ''div'')) (eq_sel (select (ByTag (js ''tbody'')) doc) 212)),
      governance := push_texts [] (find_sel (ByTag (js ''div'')) (eq_sel (select (ByTag (js ''tbody'')) doc) 214))\<rparr>"
    by (simp add: push_governance_def push_quickFacts_def set_description_def set_address_def
        new_mosque_def)
  moreover have "prayerTimings (snd (assign_slots r (m\<lparr>description := a, address := b,
      quickFacts := c, governance := d\<rparr>))) = prayerTimings (snd (assign_slots r m))"
    for r m a b c d
    unfolding assign_slots_def
    by (cases "r 0"; simp add: assign_Inl assign_Inr;
      cases "r 1"; simp add: assign_Inl assign_Inr;
      cases "r 2"; simp add: assign_Inl assign_Inr;
      cases "r 3"; simp add: assign_Inl assign_Inr;
      cases "r 4"; simp add: assign_Inl assign_Inr;
      cases "r 5"; simp add: assign_Inl assign_Inr)
  ultimately show ?thesis
    by (simp add: try_block_def set_prayerTimings_def assign_slots_timings
        parse_slot_def [abs_def])
qed

lemma try_block_quickFacts:
  "quickFacts (snd (try_block now doc (new_mosque u))) = descendant_texts doc 212"
  by (simp add: try_block_def set_prayerTimings_fields push_governance_def push_quickFacts_def
      set_description_def set_address_def new_mosque_def push_texts_append find_sel_eq_sel
      descendant_texts_def)

lemma try_block_governance:
  "governance (snd (try_block now doc (new_mosque u))) = descendant_texts doc 214"
  by (simp add: try_block_def set_prayerTimings_fields push_governance_def push_quickFacts_def
      set_description_def set_address_def new_mosque_def push_texts_append find_sel_eq_sel
      descendant_texts_def)

lemma try_block_address:
  "address (snd (try_block now doc (new_mosque u))) =
   Some (cleanText (text_sel (eq_sel (select (ByClass (js ''bodyLink'')) doc) 0)))"
  by (simp add: try_block_def set_prayerTimings_fields push_governance_def push_quickFacts_def
      set_description_def set_address_def)

lemma try_block_description:
  "description (snd (try_block now doc (new_mosque u))) =
   Some (cleanText (text_sel (eq_sel (select (ByClass (js ''bodyLink'')) doc) 1)))"
  by (simp add: try_block_def set_prayerTimings_fields push_governance_def push_quickFacts_def
      set_description_def set_address_def)

lemma try_block_url: "url (snd (try_block now doc (new_mosque u))) = Some u"
  by (simp add: try_block_def set_prayerTimings_fields push_governance_def push_quickFacts_def
      set_description_def set_address_def new_mosque_def)

lemma select_append: "select sel (xs @ ys) = select sel xs @ select sel ys"
  by (simp add: select_def)

lemma select_replicate_tbody:
  "select (ByTag t) (replicate n (Element t cs h [])) = replicate n (Element t cs h [])"
  by (induction n) (simp_all add: select_def)

text \<open>
  C8, as amended. \<open>quickFacts\<close> is the list of the normalized texts of every \<^verbatim>\<open>div\<close>
  descendant, at any depth and in document order, of the 213th \<^verbatim>\<open>tbody\<close> of the page,
  and \<open>governance\<close> the same of the 215th; a list is empty when the page has no such
  \<^verbatim>\<open>tbody\<close>.
\<close>

theorem quickFacts_governance_descendants:
  "quickFacts (snd (try_block now doc (new_mosque u))) = descendant_texts doc 212 \<and>
   governance (snd (try_block now doc (new_mosque u))) = descendant_texts doc 214 \<and>
   descendant_texts [] 212 = [] \<and> descendant_texts [] 214 = []"
  by (simp add: try_block_quickFacts try_block_governance descendant_texts_def select_def eq_sel_def)

lemma facts_page_tbody:
  "eq_sel (select (ByTag (js ''tbody'')) facts_page) 212 =
     [Element (js ''tbody'') [] None
        [Element (js ''tr'') [] None
           [Element (js ''td'') [] None
              [Element (js ''div'') [] None [Text (js ''Sunni'')]]]]]"
proof -
  have "select (ByTag (js ''tbody'')) facts_page =
     replicate 212 (Element (js ''tbody'') [] None []) @
     [Element (js ''tbody'') [] None
        [Element (js ''tr'') [] None
           [Element (js ''td'') [] None
              [Element (js ''div'') [] None [Text (js ''Sunni'')]]]]]"
    unfolding facts_page_def select_append select_replicate_tbody
    by (simp add: select_def js_def)
  then show ?thesis by (simp add: eq_sel_def nth_append)
qed

text \<open>
  C8 as stated fails: the \<^verbatim>\<open>div\<close> in a cell of a row of the 213th \<^verbatim>\<open>tbody\<close> is no
  direct child of it, and its text is in \<open>quickFacts\<close>.
\<close>

theorem quickFacts_not_direct_children:
  "quickFacts (snd (try_block (\<lambda>i. 0) facts_page (new_mosque (js ''u'')))) = [js ''Sunni''] \<and>
   direct_child_texts facts_page 212 = []"
proof -
  have "descendant_texts facts_page 212 = [js ''Sunni'']"
    unfolding descendant_texts_def facts_page_tbody
    by (simp add: descendants_def cleanText_eval)
  moreover have "direct_child_texts facts_page 212 = []"
    unfolding direct_child_texts_def facts_page_tbody
    by (simp add: js_def)
  ultimately show ?thesis by (simp add: try_block_quickFacts)
qed


text \<open>
  C5, as amended. \<open>address\<close> is the normalized text of the first element with the body
  text marker and \<open>description\<close> that of the second; where the page has no first or no
  second such element the field is set to the empty string, not left absent. The two
  statements raise nothing: the error of the block is the first error of the six prayer
  times.
\<close>

theorem address_description_set:
  "(let m = snd (try_block now doc (new_mosque u)) in
    case select (ByClass (js ''bodyLink'')) doc of
      [] \<Rightarrow> address m = Some [] \<and> description m = Some []
    | [a] \<Rightarrow> address m = Some (cleanText (node_text a)) \<and> description m = Some []
    | a # d # _ \<Rightarrow>
        address m = Some (cleanText (node_text a)) \<and>
        description m = Some (cleanText (node_text d))) \<and>
   fst (try_block now doc (new_mosque u)) = first_error (parse_slot now doc)"
proof -
  have "fst (try_block now doc (new_mosque u)) = first_error (parse_slot now doc)"
    by (rule try_block_error)
  then show ?thesis
    by (simp add: Let_def try_block_address try_block_description eq_sel_def text_sel_def
        cleanText_eval split: list.splits)
qed

text \<open>
  C5 as stated fails: on a page with one marked element \<open>description\<close> is the empty
  string, and on a page with none \<open>address\<close> is.
\<close>

theorem missing_bodyLink_empty_string:
  "description (snd (try_block (\<lambda>i. 0) address_page (new_mosque (js ''u'')))) = Some [] \<and>
   address (snd (try_block (\<lambda>i. 0) [] (new_mosque (js ''u'')))) = Some []"
  by (simp add: try_block_address try_block_description address_page_def select_def eq_sel_def
      text_sel_def cleanText_eval js_def)

section \<open>The prayer times and the run as a whole\<close>

lemma microLink_text_missing:
  "length (select (ByClass (js ''microLink'')) doc) \<le> i \<Longrightarrow> microLink_text doc i = []"
  by (simp add: microLink_text_def eq_sel_def text_sel_def cleanText_eval)

lemma convertToDate_empty: "convertToDate t [] = Inl InvalidTimeFormat"
  by (simp add: convertToDate_def)

lemma parse_slot_missing:
  "length (select (ByClass (js ''microLink'')) doc) \<le> i \<Longrightarrow>
   parse_slot now doc i = Inl InvalidTimeFormat"
  by (simp add: parse_slot_def microLink_text_missing convertToDate_empty)

lemma timings_four:
  assumes "\<not> isl (r 0)" "\<not> isl (r 1)" "\<not> isl (r 2)" "\<not> isl (r 3)" "r 4 = Inl e"
  shows "fajr (timings_until_failure r) \<noteq> None \<and> snrs (timings_until_failure r) \<noteq> None \<and>
    dhur (timings_until_failure r) \<noteq> None \<and> asr (timings_until_failure r) \<noteq> None \<and>
    magh (timings_until_failure r) = None \<and> isha (timings_until_failure r) = None \<and>
    first_error r = Some e"
  using assms
  by (cases "r 0"; cases "r 1"; cases "r 2"; cases "r 3")
    (simp_all add: timings_until_failure_def first_error_def parsed_value_def)

text \<open>
  C6, as amended. The elements with the marker of the times are read in document order
  and assigned by index 0 to 5 to \<open>fajr\<close>, \<open>snrs\<close>, \<open>dhur\<close>, \<open>asr\<close>, \<open>magh\<close>, \<open>isha\<close>,
  in that order and up to the first index whose element is missing or whose text the time
  parser rejects: that slot and every later slot stay absent. The error is the one of that
  first failure; it ends the block and is caught for the record. An index beyond the
  elements of the page fails with the format error. With exactly four elements that all
  parse, the first four slots are populated, \<open>magh\<close> and \<open>isha\<close> are absent, and the format
  error of the fifth call is the one that is caught.
\<close>

theorem prayerTimings_until_first_failure:
  "prayerTimings (snd (try_block now doc (new_mosque u))) =
     timings_until_failure (parse_slot now doc) \<and>
   fst (try_block now doc (new_mosque u)) = first_error (parse_slot now doc) \<and>
   (length (select (ByClass (js ''microLink'')) doc) \<le> i \<longrightarrow>
      parse_slot now doc i = Inl InvalidTimeFormat) \<and>
   (length (select (ByClass (js ''microLink'')) doc) = 4 \<and>
    \<not> isl (parse_slot now doc 0) \<and> \<not> isl (parse_slot now doc 1) \<and>
    \<not> isl (parse_slot now doc 2) \<and> \<not> isl (parse_slot now doc 3) \<longrightarrow>
      fajr (prayerTimings (snd (try_block now doc (new_mosque u)))) \<noteq> None \<and>
      snrs (prayerTimings (snd (try_block now doc (new_mosque u)))) \<noteq> None \<and>
      dhur (prayerTimings (snd (try_block now doc (new_mosque u)))) \<noteq> None \<and>
      asr (prayerTimings (snd (try_block now doc (new_mosque u)))) \<noteq> None \<and>
      magh (prayerTimings (snd (try_block now doc (new_mosque u)))) = None \<and>
      isha (prayerTimings (snd (try_block now doc (new_mosque u)))) = None \<and>
      fst (try_block now doc (new_mosque u)) = Some InvalidTimeFormat)"
proof -
  have four: "fajr (timings_until_failure (parse_slot now doc)) \<noteq> None \<and>
      snrs (timings_until_failure (parse_slot now doc)) \<noteq> None \<and>
      dhur (timings_until_failure (parse_slot now doc)) \<noteq> None \<and>
      asr (timings_until_failure (parse_slot now doc)) \<noteq> None \<and>
      magh (timings_until_failure (parse_slot now doc)) = None \<and>
      isha (timings_until_failure (parse_slot now doc)) = None \<and>
      first_error (parse_slot now doc) = Some InvalidTimeFormat"
    if "length (select (ByClass (js ''microLink'')) doc) = 4"
      and "\<not> isl (parse_slot now doc 0)" "\<not> isl (parse_slot now doc 1)"
      and "\<not> isl (parse_slot now doc 2)" "\<not> isl (parse_slot now doc 3)"
  proof -
    have "parse_slot now doc 4 = Inl InvalidTimeFormat"
      using that(1) by (simp add: parse_slot_missing)
    with that(2-5) show ?thesis by (rule timings_four)
  qed
  show ?thesis
    unfolding try_block_timings try_block_error
    using four parse_slot_missing [of doc i now] by blast
qed

lemmas page_eval = parse_slot_def microLink_text_def time_element_def four_times_page_def
  late_page_def select_def eq_sel_def text_sel_def cleanText_def trim_def remove_all_def
  convertToDate_eval date_eval

lemma parse_slot_four_times_page:
  "parse_slot (\<lambda>i. 0) four_times_page 0 = Inr (Num 41400000)"
  "parse_slot (\<lambda>i. 0) four_times_page 1 = Inr (Num 45900000)"
  "parse_slot (\<lambda>i. 0) four_times_page 2 = Inr (Num 65700000)"
  "parse_slot (\<lambda>i. 0) four_times_page 3 = Inr (Num 77400000)"
  "parse_slot (\<lambda>i. 0) four_times_page 4 = Inl InvalidTimeFormat"
  "parse_slot (\<lambda>i. 0) four_times_page 5 = Inl InvalidTimeFormat"
  by (simp_all add: page_eval)

text \<open>The page with exactly four times, all in Central Standard Time.\<close>

theorem prayerTimings_until_first_failure_witness:
  "length (select (ByClass (js ''microLink'')) four_times_page) = 4 \<and>
   prayerTimings (snd (try_block (\<lambda>i. 0) four_times_page (new_mosque (js ''u'')))) =
     \<lparr>fajr = Some (Num 41400000), snrs = Some (Num 45900000), dhur = Some (Num 65700000),
      asr = Some (Num 77400000), magh = None, isha = None\<rparr> \<and>
   fst (try_block (\<lambda>i. 0) four_times_page (new_mosque (js ''u''))) = Some InvalidTimeFormat"
proof -
  have n: "length (select (ByClass (js ''microLink'')) four_times_page) = 4"
    by (simp add: four_times_page_def time_element_def dom_eval)
  have p: "\<not> isl (parse_slot (\<lambda>i. 0) four_times_page 0)"
    "\<not> isl (parse_slot (\<lambda>i. 0) four_times_page 1)"
    "\<not> isl (parse_slot (\<lambda>i. 0) four_times_page 2)"
    "\<not> isl (parse_slot (\<lambda>i. 0) four_times_page 3)"
    by (simp_all add: parse_slot_four_times_page del: One_nat_def)
  note t = prayerTimings_until_first_failure [of "\<lambda>i. 0" four_times_page "js ''u''" 4]
  from t n p have e: "fst (try_block (\<lambda>i. 0) four_times_page (new_mosque (js ''u''))) =
      Some InvalidTimeFormat"
    by blast
  from t have "prayerTimings (snd (try_block (\<lambda>i. 0) four_times_page (new_mosque (js ''u'')))) =
      timings_until_failure (parse_slot (\<lambda>i. 0) four_times_page)"
    by blast
  then have "prayerTimings (snd (try_block (\<lambda>i. 0) four_times_page (new_mosque (js ''u'')))) =
     \<lparr>fajr = Some (Num 41400000), snrs = Some (Num 45900000), dhur = Some (Num 65700000),
      asr = Some (Num 77400000), magh = None, isha = None\<rparr>"
    by (simp add: timings_until_failure_def parse_slot_four_times_page parsed_value_def
        del: One_nat_def)
  with n e show ?thesis by simp
qed

text \<open>
  C6 as stated fails: on a page whose first time does not parse and whose second does, the
  second slot is absent, although its own element is there and parses.
\<close>

theorem later_slot_lost:
  "snrs (timings_slot_by_slot (parse_slot (\<lambda>i. 0) late_page)) = Some (Num 37800000) \<and>
   snrs (prayerTimings (snd (try_block (\<lambda>i. 0) late_page (new_mosque (js ''u''))))) = None"
proof -
  have "parse_slot (\<lambda>i. 0) late_page 0 = Inl InvalidTimeFormat"
    "parse_slot (\<lambda>i. 0) late_page 1 = Inr (Num 37800000)"
    by (simp_all add: page_eval)
  then show ?thesis
    by (simp add: try_block_timings timings_until_failure_def timings_slot_by_slot_def
        parsed_value_def del: One_nat_def)
qed


lemma scrape_loop_records:
  "fst (scrape_loop w k us (ms, log)) =
   ms @ map (\<lambda>(i, u). snd (scrape_url w i u)) (enumerate k us)"
proof (induction us arbitrary: k ms log)
  case Nil
  then show ?case by simp
next
  case (Cons u us)
  obtain err m where r: "scrape_url w k u = (err, m)" by (cases "scrape_url w k u")
  show ?case
  proof (cases err)
    case None
    with r Cons.IH [of "Suc k" "ms @ [m]" log] show ?thesis by simp
  next
    case (Some e)
    with r Cons.IH [of "Suc k" "ms @ [m]" "log @ [ErrorFetchingURL u e]"] show ?thesis by simp
  qed
qed

lemma scrape_records:
  "axios_get w 0 (DOMAIN @ SUB) = Some index \<Longrightarrow>
   fst (scrape w) = map (\<lambda>(k, u). snd (scrape_url w k u)) (enumerate 0 (collect_mosqueURLs index))"
  by (simp add: scrape_def scrape_loop_records)

lemma scrape_nth:
  assumes "axios_get w 0 (DOMAIN @ SUB) = Some index" "k < length (collect_mosqueURLs index)"
  shows "fst (scrape w) ! k = snd (scrape_url w k (collect_mosqueURLs index ! k))"
  using assms by (simp add: scrape_records nth_enumerate_eq)

lemma scrape_url_url: "url (snd (scrape_url w k u)) = Some u"
proof (cases "axios_get w (Suc k) u")
  case None
  then show ?thesis by (simp add: scrape_url_def new_mosque_def)
next
  case (Some doc)
  then show ?thesis by (simp add: scrape_url_def try_block_url)
qed

lemma DOMAIN_nonempty: "DOMAIN \<noteq> []"
  by (simp add: DOMAIN_def js_def)

lemma collect_mosqueURLs_nonempty: "list_all (\<lambda>u. u \<noteq> []) (collect_mosqueURLs doc)"
  by (simp add: collect_mosqueURLs_concat list_all_iff link_url_def DOMAIN_nonempty)

text \<open>
  C4. When the request for the index page fails, \<open>scrape\<close> returns no record (and logs
  the error). Otherwise it returns exactly one record for each discovered address, in the
  order of discovery: the \<open>k\<close>-th record is what the \<open>k\<close>-th turn of the loop leaves of the
  \<open>k\<close>-th address, whether that turn failed or not, its \<open>url\<close> is that address, and no
  address is empty.
\<close>

theorem scrape_one_record_per_link:
  "(axios_get w 0 (DOMAIN @ SUB) = None \<longrightarrow>
      scrape w = ([], [ErrorFetchingWebpage RequestFailed])) \<and>
   (axios_get w 0 (DOMAIN @ SUB) = Some index \<longrightarrow>
      fst (scrape w) =
        map (\<lambda>(k, u). snd (scrape_url w k u)) (enumerate 0 (collect_mosqueURLs index)) \<and>
      map url (fst (scrape w)) = map Some (collect_mosqueURLs index) \<and>
      length (fst (scrape w)) = length (collect_mosqueURLs index) \<and>
      list_all (\<lambda>u. u \<noteq> []) (collect_mosqueURLs index))"
proof -
  have "scrape w = ([], [ErrorFetchingWebpage RequestFailed])"
    if "axios_get w 0 (DOMAIN @ SUB) = None"
    using that by (simp add: scrape_def)
  moreover have "fst (scrape w) =
        map (\<lambda>(k, u). snd (scrape_url w k u)) (enumerate 0 (collect_mosqueURLs index)) \<and>
      map url (fst (scrape w)) = map Some (collect_mosqueURLs index) \<and>
      length (fst (scrape w)) = length (collect_mosqueURLs index)"
    if i: "axios_get w 0 (DOMAIN @ SUB) = Some index"
  proof -
    have "map url (map (\<lambda>(k, u). snd (scrape_url w k u)) (enumerate n us)) = map Some us"
      for n us
      by (induction us arbitrary: n) (simp_all add: scrape_url_url)
    then show ?thesis by (simp add: scrape_records [OF i])
  qed
  ultimately show ?thesis using collect_mosqueURLs_nonempty by blast
qed

lemma collect_index_page:
  "collect_mosqueURLs index_page = [DOMAIN @ js ''/m/1'', DOMAIN @ js ''/m/2'']"
  by (simp add: collect_mosqueURLs_concat title_anchors_def index_page_def select_def
      descendants_def link_url_def template_def js_def)

lemma scrape_url_first_fails_0: "scrape_url first_fails 0 u = (Some RequestFailed, new_mosque u)"
  by (simp add: scrape_url_def first_fails_def)

text \<open>
  A run without the index page, and the run of the specification's example: two links,
  the first of which cannot be fetched.
\<close>

theorem scrape_one_record_per_link_witness:
  "scrape no_index = ([], [ErrorFetchingWebpage RequestFailed]) \<and>
   map url (fst (scrape first_fails)) = [Some (DOMAIN @ js ''/m/1''), Some (DOMAIN @ js ''/m/2'')] \<and>
   length (fst (scrape first_fails)) = 2 \<and>
   fst (scrape first_fails) ! 0 = new_mosque (DOMAIN @ js ''/m/1'')"
proof -
  have a: "axios_get no_index 0 (DOMAIN @ SUB) = None" by (simp add: no_index_def)
  have b: "axios_get first_fails 0 (DOMAIN @ SUB) = Some index_page"
    by (simp add: first_fails_def)
  from scrape_one_record_per_link [of no_index] a
  have 1: "scrape no_index = ([], [ErrorFetchingWebpage RequestFailed])" by blast
  from scrape_one_record_per_link [of first_fails index_page] b
  have 2: "fst (scrape first_fails) = map (\<lambda>(k, u). snd (scrape_url first_fails k u))
        (enumerate 0 (collect_mosqueURLs index_page))"
    and 3: "map url (fst (scrape first_fails)) = map Some (collect_mosqueURLs index_page)"
    and 4: "length (fst (scrape first_fails)) = length (collect_mosqueURLs index_page)"
    by blast+
  from 2 have "fst (scrape first_fails) ! 0 = new_mosque (DOMAIN @ js ''/m/1'')"
    by (simp add: collect_index_page scrape_url_first_fails_0)
  with 1 3 4 show ?thesis by (simp add: collect_index_page)
qed


lemma isha_after_error: "first_error r = Some e \<Longrightarrow> isha (timings_until_failure r) = None"
  unfolding first_error_def timings_until_failure_def
  by (cases "r 0"; simp add: parsed_value_def;
      cases "r 1"; simp;
      cases "r 2"; simp;
      cases "r 3"; simp;
      cases "r 4"; simp;
      cases "r 5"; simp)

text \<open>
  C3, as amended. Of a discovered address whose turn of the loop fails, the record that
  \<open>scrape\<close> returns has that address as \<open>url\<close>. When the request or the parse of the page
  failed, nothing else is populated. When a prayer time failed (no other field can fail),
  the record keeps the address, the description and the two tag lists as extracted, and the
  prayer times before the first failure; the failing slot and all later ones are absent,
  \<open>isha\<close> among them.
\<close>

theorem failed_url_record:
  assumes "axios_get w 0 (DOMAIN @ SUB) = Some index"
    and "k < length (collect_mosqueURLs index)"
    and "fst (scrape_url w k (collect_mosqueURLs index ! k)) = Some e"
  shows "(let u = collect_mosqueURLs index ! k; m = fst (scrape w) ! k in
    url m = Some u \<and>
    (case axios_get w (Suc k) u of
       None \<Rightarrow> e = RequestFailed \<and> m = new_mosque u
     | Some doc \<Rightarrow>
         first_error (parse_slot (clock w k) doc) = Some e \<and>
         address m = Some (cleanText (text_sel (eq_sel (select (ByClass (js ''bodyLink'')) doc) 0))) \<and>
         description m =
           Some (cleanText (text_sel (eq_sel (select (ByClass (js ''bodyLink'')) doc) 1))) \<and>
         quickFacts m = descendant_texts doc 212 \<and>
         governance m = descendant_texts doc 214 \<and>
         prayerTimings m = timings_until_failure (parse_slot (clock w k) doc) \<and>
         isha (prayerTimings m) = None))"
proof -
  define u where "u = collect_mosqueURLs index ! k"
  have m: "fst (scrape w) ! k = snd (scrape_url w k u)"
    unfolding u_def using assms(1,2) by (rule scrape_nth)
  have e: "fst (scrape_url w k u) = Some e"
    using assms(3) by (simp add: u_def)
  have "case axios_get w (Suc k) u of
       None \<Rightarrow> e = RequestFailed \<and> snd (scrape_url w k u) = new_mosque u
     | Some doc \<Rightarrow>
         first_error (parse_slot (clock w k) doc) = Some e \<and>
         address (snd (scrape_url w k u)) =
           Some (cleanText (text_sel (eq_sel (select (ByClass (js ''bodyLink'')) doc) 0))) \<and>
         description (snd (scrape_url w k u)) =
           Some (cleanText (text_sel (eq_sel (select (ByClass (js ''bodyLink'')) doc) 1))) \<and>
         quickFacts (snd (scrape_url w k u)) = descendant_texts doc 212 \<and>
         governance (snd (scrape_url w k u)) = descendant_texts doc 214 \<and>
         prayerTimings (snd (scrape_url w k u)) =
           timings_until_failure (parse_slot (clock w k) doc) \<and>
         isha (prayerTimings (snd (scrape_url w k u))) = None"
  proof (cases "axios_get w (Suc k) u")
    case None
    with e show ?thesis by (simp add: scrape_url_def)
  next
    case (Some doc)
    then have s: "scrape_url w k u = try_block (clock w k) doc (new_mosque u)"
      by (simp add: scrape_url_def)
    from e have f: "first_error (parse_slot (clock w k) doc) = Some e"
      by (simp add: s try_block_error)
    from f have "isha (timings_until_failure (parse_slot (clock w k) doc)) = None"
      by (rule isha_after_error)
    with f Some show ?thesis
      by (simp add: s try_block_address try_block_description try_block_quickFacts
          try_block_governance try_block_timings)
  qed
  then show ?thesis
    unfolding Let_def u_def [symmetric] m by (simp add: scrape_url_url)
qed

lemma try_block_four_times_page:
  "try_block (\<lambda>i. 0) four_times_page (new_mosque u) =
     (Some InvalidTimeFormat,
      \<lparr>description = Some [], address = Some (js ''12 Main St''), url = Some u,
       quickFacts = [], governance = [],
       prayerTimings = \<lparr>fajr = Some (Num 41400000), snrs = Some (Num 45900000),
         dhur = Some (Num 65700000), asr = Some (Num 77400000), magh = None, isha = None\<rparr>\<rparr>)"
proof -
  have r: "(\<lambda>i. convertToDate 0 (microLink_text four_times_page i)) =
      parse_slot (\<lambda>i. 0) four_times_page"
    by (simp add: parse_slot_def fun_eq_iff)
  have m: "push_governance four_times_page (push_quickFacts four_times_page
      (set_description four_times_page (set_address four_times_page (new_mosque u)))) =
      \<lparr>description = Some [], address = Some (js ''12 Main St''), url = Some u,
       quickFacts = [], governance = [],
       prayerTimings = \<lparr>fajr = None, snrs = None, dhur = None, asr = None, magh = None,
         isha = None\<rparr>\<rparr>"
    by (simp add: push_governance_def push_quickFacts_def set_description_def set_address_def
        new_mosque_def push_texts_def find_sel_def four_times_page_def time_element_def
        select_def eq_sel_def text_sel_def cleanText_eval)
  show ?thesis
    unfolding try_block_def m set_prayerTimings_def r assign_slots_def
    by (simp add: parse_slot_four_times_page assign_Inl assign_Inr del: One_nat_def)
qed

lemma scrape_url_first_fails_1:
  "scrape_url first_fails (Suc 0) u = try_block (\<lambda>i. 0) four_times_page (new_mosque u)"
  by (simp add: scrape_url_def first_fails_def)

text \<open>Both kinds of failure in one run: the first request fails, the second page has four times.\<close>

theorem failed_url_record_witness:
  "fst (scrape first_fails) ! 0 = new_mosque (DOMAIN @ js ''/m/1'') \<and>
   url (fst (scrape first_fails) ! 1) = Some (DOMAIN @ js ''/m/2'') \<and>
   address (fst (scrape first_fails) ! 1) = Some (js ''12 Main St'') \<and>
   prayerTimings (fst (scrape first_fails) ! 1) =
     \<lparr>fajr = Some (Num 41400000), snrs = Some (Num 45900000), dhur = Some (Num 65700000),
      asr = Some (Num 77400000), magh = None, isha = None\<rparr>"
proof -
  have b: "axios_get first_fails 0 (DOMAIN @ SUB) = Some index_page"
    by (simp add: first_fails_def)
  have k0: "0 < length (collect_mosqueURLs index_page)"
    and k1: "1 < length (collect_mosqueURLs index_page)"
    by (simp_all add: collect_index_page)
  have e0: "fst (scrape_url first_fails 0 (collect_mosqueURLs index_page ! 0)) = Some RequestFailed"
    by (simp add: scrape_url_first_fails_0)
  have e1: "fst (scrape_url first_fails 1 (collect_mosqueURLs index_page ! 1)) =
      Some InvalidTimeFormat"
    by (simp add: scrape_url_first_fails_1 try_block_four_times_page)
  have g0: "axios_get first_fails (Suc 0) v = None"
    and g1: "axios_get first_fails (Suc 1) v = Some four_times_page"
    and c: "clock first_fails 1 = (\<lambda>i. 0)" for v
    by (simp_all add: first_fails_def)
  from failed_url_record [OF b k0 e0]
  have 0: "fst (scrape first_fails) ! 0 = new_mosque (DOMAIN @ js ''/m/1'')"
    by (simp add: Let_def g0 collect_index_page)
  from failed_url_record [OF b k1 e1]
  have 1: "url (fst (scrape first_fails) ! 1) = Some (DOMAIN @ js ''/m/2'')"
    "address (fst (scrape first_fails) ! 1) =
       Some (cleanText (text_sel (eq_sel (select (ByClass (js ''bodyLink'')) four_times_page) 0)))"
    "prayerTimings (fst (scrape first_fails) ! 1) =
       timings_until_failure (parse_slot (\<lambda>i. 0) four_times_page)"
    unfolding Let_def g1 c by (simp_all add: collect_index_page del: One_nat_def)
  have a: "cleanText (text_sel (eq_sel (select (ByClass (js ''bodyLink'')) four_times_page) 0)) =
      js ''12 Main St''"
    by (simp add: four_times_page_def time_element_def select_def eq_sel_def text_sel_def
        cleanText_eval)
  have t: "timings_until_failure (parse_slot (\<lambda>i. 0) four_times_page) =
     \<lparr>fajr = Some (Num 41400000), snrs = Some (Num 45900000), dhur = Some (Num 65700000),
      asr = Some (Num 77400000), magh = None, isha = None\<rparr>"
    by (simp add: timings_until_failure_def parse_slot_four_times_page parsed_value_def
        del: One_nat_def)
  from 0 1 show ?thesis unfolding a t by simp
qed

text \<open>
  C3 as stated fails: the extraction of the second address fails with the format error,
  and its record has an address, a description and four prayer times.
\<close>

theorem failed_extraction_keeps_fields:
  "scrape first_fails =
     ([new_mosque (DOMAIN @ js ''/m/1''),
       \<lparr>description = Some [], address = Some (js ''12 Main St''),
        url = Some (DOMAIN @ js ''/m/2''), quickFacts = [], governance = [],
        prayerTimings = \<lparr>fajr = Some (Num 41400000), snrs = Some (Num 45900000),
          dhur = Some (Num 65700000), asr = Some (Num 77400000), magh = None, isha = None\<rparr>\<rparr>],
      [ErrorFetchingURL (DOMAIN @ js ''/m/1'') RequestFailed,
       ErrorFetchingURL (DOMAIN @ js ''/m/2'') InvalidTimeFormat])"
proof -
  have b: "axios_get first_fails 0 (DOMAIN @ SUB) = Some index_page"
    by (simp add: first_fails_def)
  show ?thesis
    unfolding scrape_def b
    by (simp add: collect_index_page scrape_url_first_fails_0 scrape_url_first_fails_1
        try_block_four_times_page)
qed

end
